theory Spec2Isabelle
  imports Complex_Main "HOL-Library.Word" "HOL-Library.Sublist" "HOL-Library.Log_Nat"
begin

unbundle bit_operations_syntax

section \<open>Python strings\<close>

text \<open>
  A Python \<open>str\<close> that the program receives (message text, header values, owner and
  repository names, the strings of a decoded JSON document, configuration values) is
  modelled as a \<open>string\<close> whose characters are the code points \<open>0 .. 255\<close>.
  The character tables below are those of Python 3 on that range.
\<close>

text \<open>
  An exception that a function raises is the \<open>Inl\<close> of its result.
\<close>

datatype py_exn =
    HTTPError
  | JSONDecodeError
  | AttributeError
  | ValueError
  | OverflowError
  | UnicodeDecodeError
  | UnicodeEncodeError
  | TypeError

fun all_ok :: "(py_exn + 'a) list \<Rightarrow> py_exn + 'a list" where
  \<comment> \<open>the values in order, or the first exception\<close>
  "all_ok [] = Inr []"
| "all_ok (r # rs) =
     (case r of
        Inl e \<Rightarrow> Inl e
      | Inr v \<Rightarrow> (case all_ok rs of Inl e \<Rightarrow> Inl e | Inr vs \<Rightarrow> Inr (v # vs)))"

definition py_isspace :: "char \<Rightarrow> bool" where
  \<comment> \<open>\<open>str.isspace\<close>, \<open>str.strip()\<close> and the class \<open>\s\<close> of \<open>re\<close>\<close>
  "py_isspace c =
     (let n = (of_char c :: nat)
      in (9 \<le> n \<and> n \<le> 13) \<or> (28 \<le> n \<and> n \<le> 32) \<or> n = 133 \<or> n = 160)"

definition py_strip :: "string \<Rightarrow> string" where
  "py_strip s = rev (dropWhile py_isspace (rev (dropWhile py_isspace s)))"

fun py_split :: "char \<Rightarrow> string \<Rightarrow> string list" where
  "py_split sep [] = [[]]"
| "py_split sep (c # cs) =
     (if c = sep then [] # py_split sep cs
      else (case py_split sep cs of
              [] \<Rightarrow> [[c]]
            | w # ws \<Rightarrow> (c # w) # ws))"

definition py_lower_char :: "char \<Rightarrow> char" where
  \<comment> \<open>\<open>str.lower\<close> on one code point below 256\<close>
  "py_lower_char c =
     (let n = (of_char c :: nat)
      in if (65 \<le> n \<and> n \<le> 90) \<or> (192 \<le> n \<and> n \<le> 214) \<or> (216 \<le> n \<and> n \<le> 222)
         then char_of (n + 32) else c)"

definition py_lower :: "string \<Rightarrow> string" where
  "py_lower s = map py_lower_char s"

fun py_in :: "string \<Rightarrow> string \<Rightarrow> bool" where
  \<comment> \<open>\<open>needle in hay\<close> on strings\<close>
  "py_in needle [] = (needle = [])"
| "py_in needle (c # cs) = (prefix needle (c # cs) \<or> py_in needle cs)"

fun py_join :: "string \<Rightarrow> string list \<Rightarrow> string" where
  "py_join sep [] = []"
| "py_join sep [x] = x"
| "py_join sep (x # y # ys) = x @ sep @ py_join sep (y # ys)"

definition digit_char :: "nat \<Rightarrow> char" where
  "digit_char d = char_of (48 + d)"

function py_str_nat :: "nat \<Rightarrow> string" where
  "py_str_nat n = (if n < 10 then [digit_char n] else py_str_nat (n div 10) @ [digit_char (n mod 10)])"
  by pat_completeness auto
termination
  by (relation "measure id") auto

declare py_str_nat.simps [simp del]

definition int_max_str_digits :: nat where
  \<comment> \<open>\<open>sys.int_info.default_max_str_digits\<close>: the limit of the conversions between
     \<open>int\<close> and \<open>str\<close>, in both directions\<close>
  "int_max_str_digits = 4300"

definition py_str_int :: "int \<Rightarrow> py_exn + string" where
  \<comment> \<open>\<open>str(i)\<close> and \<open>f"{i}"\<close> for an \<open>int\<close>: \<open>ValueError\<close> above the limit of digits\<close>
  "py_str_int i =
     (let ds = py_str_nat (nat \<bar>i\<bar>)
      in if int_max_str_digits < length ds then Inl ValueError
         else if i < 0 then Inr (CHR ''-'' # ds)
         else Inr ds)"

definition hex_char :: "nat \<Rightarrow> char" where
  "hex_char d = (if d < 10 then char_of (48 + d) else char_of (87 + d))"

definition hex_byte :: "nat \<Rightarrow> string" where
  "hex_byte n = [hex_char (n div 16 mod 16), hex_char (n mod 16)]"

text \<open>
  A \<open>str\<close> that the program writes may hold code points above 255 (the messages use
  an em dash, U+2014); such a string is a list of code points.
\<close>

type_synonym ustr = "nat list"

definition ustr :: "string \<Rightarrow> ustr" where
  "ustr s = map of_char s"

definition em_dash :: nat where
  "em_dash = 8212"

section \<open>Python values of a decoded JSON document\<close>

text \<open>
  \<open>response.json()\<close> returns \<open>None\<close>, a \<open>bool\<close>, an \<open>int\<close>, a \<open>str\<close>, a \<open>list\<close> or
  a \<open>dict\<close> with \<open>str\<close> keys (its items in insertion order). JSON numbers with a fraction or
  an exponent (Python \<open>float\<close>) are left out of the model.
\<close>

datatype py_value =
    PyNone
  | PyBool bool
  | PyInt int
  | PyStr string
  | PyList "py_value list"
  | PyDict "(string \<times> py_value) list"

fun py_truthy :: "py_value \<Rightarrow> bool" where
  "py_truthy PyNone = False"
| "py_truthy (PyBool b) = b"
| "py_truthy (PyInt i) = (i \<noteq> 0)"
| "py_truthy (PyStr s) = (s \<noteq> [])"
| "py_truthy (PyList xs) = (xs \<noteq> [])"
| "py_truthy (PyDict kvs) = (kvs \<noteq> [])"

definition py_repr_char :: "char \<Rightarrow> char \<Rightarrow> string" where
  \<comment> \<open>one character of \<open>repr(s)\<close>, given the quote that \<open>repr\<close> chose\<close>
  "py_repr_char quote c =
     (let n = (of_char c :: nat)
      in if c = quote \<or> n = 92 then [CHR 0x5C, c]
         else if n = 9 then [CHR 0x5C, CHR ''t'']
         else if n = 10 then [CHR 0x5C, CHR ''n'']
         else if n = 13 then [CHR 0x5C, CHR ''r'']
         else if n < 32 \<or> n = 127 then [CHR 0x5C, CHR ''x''] @ hex_byte n
         else if n < 127 then [c]
         else if n \<le> 160 \<or> n = 173 then [CHR 0x5C, CHR ''x''] @ hex_byte n
         else [c])"

definition py_repr_str :: "string \<Rightarrow> string" where
  "py_repr_str s =
     (let quote = (if CHR 0x27 \<in> set s \<and> CHR 0x22 \<notin> set s then CHR 0x22 else CHR 0x27)
      in quote # concat (map (py_repr_char quote) s) @ [quote])"

fun py_repr :: "py_value \<Rightarrow> py_exn + string" where
  "py_repr PyNone = Inr ''None''"
| "py_repr (PyBool b) = Inr (if b then ''True'' else ''False'')"
| "py_repr (PyInt i) = py_str_int i"
| "py_repr (PyStr s) = Inr (py_repr_str s)"
| "py_repr (PyList xs) =
     (case all_ok (map py_repr xs) of
        Inl e \<Rightarrow> Inl e
      | Inr rs \<Rightarrow> Inr (''['' @ py_join '', '' rs @ '']''))"
| "py_repr (PyDict kvs) =
     (case all_ok (map (\<lambda>kv. case py_repr (snd kv) of
                                  Inl e \<Rightarrow> Inl e
                                | Inr r \<Rightarrow> Inr (py_repr_str (fst kv) @ '': '' @ r)) kvs) of
        Inl e \<Rightarrow> Inl e
      | Inr rs \<Rightarrow> Inr (''{'' @ py_join '', '' rs @ ''}''))"

definition py_str :: "py_value \<Rightarrow> py_exn + string" where
  \<comment> \<open>\<open>str(v)\<close>, which is also how an f-string formats \<open>v\<close>\<close>
  "py_str v = (case v of PyStr s \<Rightarrow> Inr s | _ \<Rightarrow> py_repr v)"

definition dict_get :: "(string \<times> py_value) list \<Rightarrow> string \<Rightarrow> py_value \<Rightarrow> py_value" where
  \<comment> \<open>\<open>d.get(key, default)\<close> on the items of a \<open>dict\<close>\<close>
  "dict_get kvs key dflt = (case map_of kvs key of None \<Rightarrow> dflt | Some x \<Rightarrow> x)"

definition py_get :: "py_value \<Rightarrow> string \<Rightarrow> py_value \<Rightarrow> py_exn + py_value" where
  \<comment> \<open>\<open>v.get(key, default)\<close> on a decoded document: only a \<open>dict\<close> has the method\<close>
  "py_get v key dflt =
     (case v of
        PyDict kvs \<Rightarrow> Inr (dict_get kvs key dflt)
      | _ \<Rightarrow> Inl AttributeError)"

section \<open>Parsing an integer: \<open>int(s)\<close>\<close>

definition py_isdigit :: "char \<Rightarrow> bool" where
  \<comment> \<open>the class \<open>\d\<close> of \<open>re\<close> and the digits that \<open>int\<close> reads, below 256\<close>
  "py_isdigit c = (let n = (of_char c :: nat) in 48 \<le> n \<and> n \<le> 57)"

definition int_space :: "char \<Rightarrow> bool" where
  \<comment> \<open>the white space that \<open>int\<close> strips at both ends\<close>
  "int_space c = (let n = (of_char c :: nat) in (9 \<le> n \<and> n \<le> 13) \<or> n = 32 \<or> n = 133 \<or> n = 160)"

fun int_literal :: "string \<Rightarrow> bool" where
  \<comment> \<open>digits, with single underscores between digits only\<close>
  "int_literal [] = False"
| "int_literal [c] = py_isdigit c"
| "int_literal (c # d # r) =
     (py_isdigit c \<and>
      (if d = CHR ''_'' then (case r of [] \<Rightarrow> False | e # _ \<Rightarrow> py_isdigit e \<and> int_literal r)
       else int_literal (d # r)))"

definition digit_value :: "char \<Rightarrow> nat" where
  "digit_value c = of_char c - 48"

definition decimal_value :: "string \<Rightarrow> nat" where
  "decimal_value ds = foldl (\<lambda>a c. 10 * a + digit_value c) 0 ds"

definition py_int :: "string \<Rightarrow> py_exn + int" where
  "py_int s =
     (let t = rev (dropWhile int_space (rev (dropWhile int_space s)));
          negative = (case t of [] \<Rightarrow> False | c # _ \<Rightarrow> c = CHR ''-'');
          body = (case t of [] \<Rightarrow> [] | c # r \<Rightarrow> if c = CHR ''+'' \<or> c = CHR ''-'' then r else t);
          ds = filter (\<lambda>c. c \<noteq> CHR ''_'') body
      in if \<not> int_literal body then Inl ValueError
         else if length ds > int_max_str_digits then Inl ValueError
         else if negative then Inr (- int (decimal_value ds))
         else Inr (int (decimal_value ds)))"

section \<open>config.py and auth.py\<close>

record Settings =
  slack_bot_token :: string
  slack_signing_secret :: string
  github_token :: string
  authorized_slack_user_ids :: string

definition authorized_user_ids :: "Settings \<Rightarrow> string set" where
  "authorized_user_ids st =
     set (map py_strip
            (filter (\<lambda>uid. py_strip uid \<noteq> [])
               (py_split (CHR '','') (authorized_slack_user_ids st))))"

definition is_authorized :: "string \<Rightarrow> Settings \<Rightarrow> bool" where
  "is_authorized slack_user_id st =
     (let authorized = authorized_user_ids st
      in if authorized = {} then False else slack_user_id \<in> authorized)"

section \<open>github_client.py\<close>

definition GITHUB_API_BASE :: string where
  "GITHUB_API_BASE = ''https://api.github.com''"

datatype MergeStatus =
    SUCCESS
  | ALREADY_MERGED
  | CONFLICT
  | CHECKS_PENDING
  | NOT_FOUND
  | ERROR

record MergeResult =
  status :: MergeStatus
  message :: ustr

text \<open>
  The HTTP client is the environment of the orchestrator. A request either raises (any
  failure of the transport, a timeout included: \<open>httpx\<close> reports them all as an
  \<open>HTTPError\<close>) or returns a response. Of a response the program reads the status
  code and \<open>response.json()\<close>, which raises when the body is not a JSON document
  (\<open>json = None\<close> below). The requests sent are recorded in the order of sending.
\<close>

datatype http_method = GET | PUT

record Request =
  req_method :: http_method
  req_url :: string
  req_headers :: "(string \<times> string) list"
  req_json :: "py_value option"

record Response =
  status_code :: int
  json :: "py_value option"

type_synonym http_client = "Request \<Rightarrow> py_exn + Response"

definition response_json :: "Response \<Rightarrow> py_exn + py_value" where
  "response_json response = (case json response of None \<Rightarrow> Inl JSONDecodeError | Some v \<Rightarrow> Inr v)"

definition conflict_message :: "string \<Rightarrow> ustr" where
  \<comment> \<open>the f-string of lines 101, 127 and 137, with its em dash, around the formatted number\<close>
  "conflict_message n =
     ustr (''Cannot merge PR #'' @ n @ '' '') @ [em_dash] @ ustr '' there are merge conflicts.''"

text \<open>
  Every f-string that formats \<open>pull_number\<close> raises \<open>ValueError\<close> when the number has
  more than 4300 digits. \<open>_get_pr_state\<close> formats it first in \<open>pr_url\<close>, before the
  request; the later f-strings format the same number and so give the same text \<open>n\<close>.
\<close>

definition get_pr_state ::
  "http_client \<Rightarrow> string \<Rightarrow> string \<Rightarrow> int \<Rightarrow> (string \<times> string) list
     \<Rightarrow> (py_exn + MergeResult option) \<times> Request list" where
  "get_pr_state client own rep num hdrs =
     (case py_str_int num of
        Inl e \<Rightarrow> (Inl e, [])
      | Inr n \<Rightarrow>
          (let pr_url = GITHUB_API_BASE @ ''/repos/'' @ own @ ''/'' @ rep @ ''/pulls/'' @ n;
               request = \<lparr>req_method = GET, req_url = pr_url, req_headers = hdrs, req_json = None\<rparr>
           in (case client request of
                 Inl e \<Rightarrow> Inl e
               | Inr response \<Rightarrow>
                   if status_code response = 404 then
                     Inr (Some \<lparr>status = NOT_FOUND,
                       message = ustr (''PR #'' @ n @ '' not found in '' @ own @ ''/'' @ rep @ ''.'')\<rparr>)
                   else if status_code response \<noteq> 200 then
                     (case py_str_int (status_code response) of
                        Inl e \<Rightarrow> Inl e
                      | Inr code \<Rightarrow>
                          Inr (Some \<lparr>status = ERROR,
                            message = ustr (''Failed to fetch PR #'' @ n @ '': HTTP '' @ code @ ''.'')\<rparr>))
                   else
                     (case response_json response of
                        Inl e \<Rightarrow> Inl e
                      | Inr data \<Rightarrow>
                          (case py_get data ''merged'' PyNone of
                             Inl e \<Rightarrow> Inl e
                           | Inr merged \<Rightarrow>
                               if py_truthy merged then
                                 Inr (Some \<lparr>status = ALREADY_MERGED,
                                   message = ustr (''PR #'' @ n @ '' is already merged.'')\<rparr>)
                               else
                                 (case py_get data ''state'' PyNone of
                                    Inl e \<Rightarrow> Inl e
                                  | Inr state \<Rightarrow>
                                      if state = PyStr ''closed'' then
                                        Inr (Some \<lparr>status = ERROR,
                                          message = ustr (''PR #'' @ n
                                                      @ '' is closed without being merged.'')\<rparr>)
                                      else
                                        (case py_get data ''mergeable'' PyNone of
                                           Inl e \<Rightarrow> Inl e
                                         | Inr mergeable \<Rightarrow>
                                             if mergeable = PyBool False then
                                               Inr (Some \<lparr>status = CONFLICT, message = conflict_message n\<rparr>)
                                             else Inr None)))),
               [request])))"

text \<open>
  In \<open>_parse_merge_response\<close> each branch formats \<open>pull_number\<close> in its own f-string,
  after the body has been read. The last f-string formats \<open>pull_number\<close> and then
  \<open>reason\<close>; when the message is falsy, \<open>reason\<close> is itself an f-string of the status
  code, evaluated before.
\<close>

definition parse_merge_response :: "Response \<Rightarrow> int \<Rightarrow> py_exn + MergeResult" where
  "parse_merge_response response num =
     (if status_code response = 200 then
        (case py_str_int num of
           Inl e \<Rightarrow> Inl e
         | Inr n \<Rightarrow> Inr \<lparr>status = SUCCESS, message = ustr (''PR #'' @ n @ '' merged successfully.'')\<rparr>)
      else
        (let body = (case response_json response of Inl e \<Rightarrow> PyDict [] | Inr v \<Rightarrow> v)
         in case py_get body ''message'' (PyStr []) of
              Inl e \<Rightarrow> Inl e
            | Inr m \<Rightarrow>
                (case py_str m of
                   Inl e \<Rightarrow> Inl e
                 | Inr text \<Rightarrow>
                     (let github_message = py_lower text
                      in if status_code response = 405 then
                           (if py_in ''not mergeable'' github_message \<or> py_in ''conflict'' github_message then
                              (case py_str_int num of
                                 Inl e \<Rightarrow> Inl e
                               | Inr n \<Rightarrow> Inr \<lparr>status = CONFLICT, message = conflict_message n\<rparr>)
                            else
                              (case py_str_int num of
                                 Inl e \<Rightarrow> Inl e
                               | Inr n \<Rightarrow>
                                   Inr \<lparr>status = CHECKS_PENDING,
                                     message = ustr (''Cannot merge PR #'' @ n @ '' '')
                                       @ [em_dash] @ ustr '' status checks have not passed.''\<rparr>))
                         else if status_code response = 409 then
                           (case py_str_int num of
                              Inl e \<Rightarrow> Inl e
                            | Inr n \<Rightarrow> Inr \<lparr>status = CONFLICT, message = conflict_message n\<rparr>)
                         else if status_code response = 404 then
                           (case py_str_int num of
                              Inl e \<Rightarrow> Inl e
                            | Inr n \<Rightarrow>
                                Inr \<lparr>status = NOT_FOUND, message = ustr (''PR #'' @ n @ '' not found.'')\<rparr>)
                         else
                           (case py_get body ''message'' PyNone of
                              Inl e \<Rightarrow> Inl e
                            | Inr m' \<Rightarrow>
                                (case (if py_truthy m' then Inr m'
                                       else (case py_str_int (status_code response) of
                                               Inl e \<Rightarrow> Inl e
                                             | Inr code \<Rightarrow> Inr (PyStr (''HTTP '' @ code)))) of
                                   Inl e \<Rightarrow> Inl e
                                 | Inr reason \<Rightarrow>
                                     (case py_str_int num of
                                        Inl e \<Rightarrow> Inl e
                                      | Inr n \<Rightarrow>
                                          (case py_str reason of
                                             Inl e \<Rightarrow> Inl e
                                           | Inr r \<Rightarrow>
                                               Inr \<lparr>status = ERROR,
                                                 message = ustr (''Failed to merge PR #'' @ n @ '': '' @ r)\<rparr>))))))))"

text \<open>
  \<open>merge_pull_request\<close> formats \<open>pull_number\<close> in \<open>url\<close> (line 41) before it opens
  the client.
\<close>

definition merge_pull_request ::
  "http_client \<Rightarrow> string \<Rightarrow> string \<Rightarrow> int \<Rightarrow> string
     \<Rightarrow> (py_exn + MergeResult) \<times> Request list" where
  "merge_pull_request client own rep num token =
     (case py_str_int num of
        Inl e \<Rightarrow> (Inl e, [])
      | Inr n \<Rightarrow>
          (let merge_url = GITHUB_API_BASE @ ''/repos/'' @ own @ ''/'' @ rep @ ''/pulls/'' @ n @ ''/merge'';
               hdrs = [(''Authorization'', ''Bearer '' @ token),
                       (''Accept'', ''application/vnd.github+json''),
                       (''X-GitHub-Api-Version'', ''2022-11-28'')]
           in case get_pr_state client own rep num hdrs of
                (Inl e, sent) \<Rightarrow> (Inl e, sent)
              | (Inr (Some pr_state), sent) \<Rightarrow> (Inr pr_state, sent)
              | (Inr None, sent) \<Rightarrow>
                  (let request = \<lparr>req_method = PUT, req_url = merge_url, req_headers = hdrs,
                                   req_json = Some (PyDict [(''merge_method'', PyStr ''squash'')])\<rparr>
                   in case client request of
                        Inl e \<Rightarrow> (Inl e, sent @ [request])
                      | Inr response \<Rightarrow> (parse_merge_response response num, sent @ [request]))))"

definition merge_call_issued :: "Request list \<Rightarrow> bool" where
  \<comment> \<open>whether the \<open>PUT\<close> of Step 2 is among the requests sent\<close>
  "merge_call_issued sent = list_ex (\<lambda>request. req_method request = PUT) sent"

subsection \<open>Fixtures of tests/test_github_client.py\<close>

definition open_pr_payload :: "py_value \<Rightarrow> py_value" where
  "open_pr_payload mergeable =
     PyDict [(''state'', PyStr ''open''), (''merged'', PyBool False), (''mergeable'', mergeable)]"

definition respx_mock :: "(py_exn + Response) \<Rightarrow> (py_exn + Response) \<Rightarrow> http_client" where
  \<comment> \<open>a client that answers the \<open>GET\<close> with one reply and the \<open>PUT\<close> with another\<close>
  "respx_mock fetch_reply merge_reply request =
     (if req_method request = GET then fetch_reply else merge_reply)"

section \<open>The regular expressions of slack_handler.py\<close>

text \<open>
  Both patterns are built from literal characters, a character class under a greedy
  \<open>+\<close> (inside a capturing group or not), the word boundary \<open>\b\<close> and an alternation at
  the top. \<open>Pattern.search\<close> tries the start positions from left to right; at one
  position it tries the alternatives in order, and within one alternative the longest
  repetition first, backtracking to shorter ones.
\<close>

definition py_isword :: "char \<Rightarrow> bool" where
  \<comment> \<open>the class \<open>\w\<close> of \<open>re\<close> on a \<open>str\<close>, below 256\<close>
  "py_isword c =
     (let n = (of_char c :: nat)
      in (48 \<le> n \<and> n \<le> 57) \<or> (65 \<le> n \<and> n \<le> 90) \<or> n = 95 \<or> (97 \<le> n \<and> n \<le> 122) \<or>
         n = 170 \<or> n = 178 \<or> n = 179 \<or> n = 181 \<or> n = 185 \<or> n = 186 \<or>
         (188 \<le> n \<and> n \<le> 190) \<or> (192 \<le> n \<and> n \<le> 214) \<or> (216 \<le> n \<and> n \<le> 246) \<or>
         (248 \<le> n \<and> n \<le> 255))"

datatype re_item =
    Chr char
  | Plus "char \<Rightarrow> bool"
  | Cap "char \<Rightarrow> bool"
  | Bnd

record Pattern =
  alternatives :: "re_item list list"
  ignorecase :: bool

record Match =
  group0 :: string
  groups :: "string list"

definition chr_eq :: "bool \<Rightarrow> char \<Rightarrow> char \<Rightarrow> bool" where
  \<comment> \<open>whether the text character \<open>x\<close> matches the literal \<open>c\<close>\<close>
  "chr_eq ic c x = (x = c \<or> (ic \<and> py_lower_char x = py_lower_char c))"

definition word_boundary :: "char option \<Rightarrow> string \<Rightarrow> bool" where
  \<comment> \<open>\<open>\b\<close> between the character before the position and the rest of the text\<close>
  "word_boundary prev s =
     ((case prev of None \<Rightarrow> False | Some p \<Rightarrow> py_isword p) \<noteq>
      (case s of [] \<Rightarrow> False | x # _ \<Rightarrow> py_isword x))"

fun backtrack :: "(nat \<Rightarrow> 'a option) \<Rightarrow> nat \<Rightarrow> 'a option" where
  \<comment> \<open>the first success among the lengths \<open>n, n - 1, ..., 1\<close>\<close>
  "backtrack f 0 = None"
| "backtrack f (Suc k) = (case f (Suc k) of Some r \<Rightarrow> Some r | None \<Rightarrow> backtrack f k)"

primrec re_match :: "bool \<Rightarrow> re_item list \<Rightarrow> char option \<Rightarrow> string \<Rightarrow> (string list \<times> string) option" where
  "re_match ic [] prev s = Some ([], s)"
| "re_match ic (it # its) prev s =
     (case it of
        Chr c \<Rightarrow>
          (case s of
             [] \<Rightarrow> None
           | x # xs \<Rightarrow> if chr_eq ic c x then re_match ic its (Some x) xs else None)
      | Bnd \<Rightarrow> if word_boundary prev s then re_match ic its prev s else None
      | Plus cls \<Rightarrow>
          backtrack (\<lambda>k. re_match ic its (Some (s ! (k - 1))) (drop k s))
            (length (takeWhile cls s))
      | Cap cls \<Rightarrow>
          backtrack
            (\<lambda>k. case re_match ic its (Some (s ! (k - 1))) (drop k s) of
                   None \<Rightarrow> None
                 | Some (gs, rest) \<Rightarrow> Some (take k s # gs, rest))
            (length (takeWhile cls s)))"

fun re_alts :: "bool \<Rightarrow> re_item list list \<Rightarrow> char option \<Rightarrow> string \<Rightarrow> (string list \<times> string) option" where
  "re_alts ic [] prev s = None"
| "re_alts ic (a # as) prev s =
     (case re_match ic a prev s of Some r \<Rightarrow> Some r | None \<Rightarrow> re_alts ic as prev s)"

fun re_search_from :: "Pattern \<Rightarrow> char option \<Rightarrow> string \<Rightarrow> Match option" where
  "re_search_from p prev [] =
     (case re_alts (ignorecase p) (alternatives p) prev [] of
        Some (gs, rest) \<Rightarrow> Some \<lparr>group0 = [], groups = gs\<rparr>
      | None \<Rightarrow> None)"
| "re_search_from p prev (x # xs) =
     (case re_alts (ignorecase p) (alternatives p) prev (x # xs) of
        Some (gs, rest) \<Rightarrow> Some \<lparr>group0 = take (Suc (length xs) - length rest) (x # xs), groups = gs\<rparr>
      | None \<Rightarrow> re_search_from p (Some x) xs)"

definition re_search :: "Pattern \<Rightarrow> string \<Rightarrow> Match option" where
  "re_search p text = re_search_from p None text"

definition lit :: "string \<Rightarrow> re_item list" where
  "lit s = map Chr s"

text \<open>
  What a match is, without the search order: \<open>re_sem ic its prev w rest gs\<close> holds when
  the text \<open>w\<close>, standing after the character \<open>prev\<close> and before \<open>rest\<close>, matches the
  items \<open>its\<close> and the groups capture \<open>gs\<close>.
\<close>

primrec re_sem :: "bool \<Rightarrow> re_item list \<Rightarrow> char option \<Rightarrow> string \<Rightarrow> string \<Rightarrow> string list \<Rightarrow> bool" where
  "re_sem ic [] prev w rest gs = (w = [] \<and> gs = [])"
| "re_sem ic (it # its) prev w rest gs =
     (case it of
        Chr c \<Rightarrow> (\<exists>x w'. w = x # w' \<and> chr_eq ic c x \<and> re_sem ic its (Some x) w' rest gs)
      | Bnd \<Rightarrow> word_boundary prev (w @ rest) \<and> re_sem ic its prev w rest gs
      | Plus cls \<Rightarrow>
          (\<exists>u w'. w = u @ w' \<and> u \<noteq> [] \<and> list_all cls u \<and>
             re_sem ic its (Some (last u)) w' rest gs)
      | Cap cls \<Rightarrow>
          (\<exists>u w' gs'. w = u @ w' \<and> gs = u # gs' \<and> u \<noteq> [] \<and> list_all cls u \<and>
             re_sem ic its (Some (last u)) w' rest gs'))"

definition char_before :: "char option \<Rightarrow> string \<Rightarrow> char option" where
  \<comment> \<open>the character before a position that lies after the prefix \<open>pre\<close>\<close>
  "char_before prev pre = (if pre = [] then prev else Some (last pre))"

definition re_occurs :: "Pattern \<Rightarrow> string \<Rightarrow> string \<Rightarrow> string \<Rightarrow> bool" where
  \<comment> \<open>\<open>w\<close>, standing between \<open>pre\<close> and \<open>post\<close>, matches one of the alternatives\<close>
  "re_occurs p pre w post =
     (\<exists>alt\<in>set (alternatives p). \<exists>gs. re_sem (ignorecase p) alt (char_before None pre) w post gs)"

section \<open>slack_handler.py\<close>

definition repo_char :: "char \<Rightarrow> bool" where
  \<comment> \<open>the class \<open>[A-Za-z0-9_.\-]\<close>\<close>
  "repo_char c =
     (let n = (of_char c :: nat)
      in (65 \<le> n \<and> n \<le> 90) \<or> (97 \<le> n \<and> n \<le> 122) \<or> (48 \<le> n \<and> n \<le> 57) \<or>
         c = CHR ''_'' \<or> c = CHR ''.'' \<or> c = CHR ''-'')"

definition PR_URL_PATTERN :: Pattern where
  "PR_URL_PATTERN =
     \<lparr>alternatives =
        [lit ''https://github.com/'' @ [Cap repo_char] @ lit ''/'' @ [Cap repo_char]
           @ lit ''/pull/'' @ [Cap py_isdigit]],
      ignorecase = False\<rparr>"

definition MERGE_KEYWORDS :: Pattern where
  "MERGE_KEYWORDS =
     \<lparr>alternatives =
        [[Bnd] @ lit ''merge'' @ [Bnd],
         lit ''can'' @ [Plus py_isspace] @ lit ''u'',
         lit ''please'' @ [Plus py_isspace] @ lit ''merge''],
      ignorecase = True\<rparr>"

record ParsedPR =
  owner :: string
  repo :: string
  pull_number :: int
  url :: string

definition extract_pr :: "string \<Rightarrow> py_exn + ParsedPR option" where
  "extract_pr text =
     (case re_search PR_URL_PATTERN text of
        None \<Rightarrow> Inr None
      | Some m \<Rightarrow>
          (case groups m of
             [own, rep, number] \<Rightarrow>
               (case py_int number of
                  Inl e \<Rightarrow> Inl e
                | Inr n \<Rightarrow> Inr (Some \<lparr>owner = own, repo = rep, pull_number = n, url = group0 m\<rparr>))
           | _ \<Rightarrow> Inl ValueError))"

definition has_merge_intent :: "string \<Rightarrow> bool" where
  "has_merge_intent text = (re_search MERGE_KEYWORDS text \<noteq> None)"

text \<open>
  The vocabulary of \<open>has_merge_intent\<close> in the words of the specification: the standalone
  word, compared without regard to case and with no word character on either side, and a
  phrase of two words with white space between them, found anywhere in the text.
\<close>

definition standalone_word :: "string \<Rightarrow> string \<Rightarrow> string \<Rightarrow> string \<Rightarrow> bool" where
  "standalone_word word pre w post =
     (py_lower w = word \<and> (pre = [] \<or> \<not> py_isword (last pre)) \<and> (post = [] \<or> \<not> py_isword (hd post)))"

definition phrase :: "string \<Rightarrow> string \<Rightarrow> string \<Rightarrow> bool" where
  "phrase a b w =
     (\<exists>x ws y. w = x @ ws @ y \<and> py_lower x = a \<and> ws \<noteq> [] \<and> list_all py_isspace ws \<and> py_lower y = b)"

definition merge_intent_spec :: "string \<Rightarrow> bool" where
  "merge_intent_spec text =
     (\<exists>pre w post. text = pre @ w @ post \<and>
        (standalone_word ''merge'' pre w post \<or> phrase ''can'' ''u'' w \<or> phrase ''please'' ''merge'' w))"

text \<open>
  A pull-request URL in the words of the specification:
  \<open><platform>/<owner>/<repo>/pull/<number>\<close>, owner and repository over the restricted
  character set, the number in digits only.
\<close>

definition is_pr_url :: "string \<Rightarrow> string \<Rightarrow> string \<Rightarrow> string \<Rightarrow> bool" where
  "is_pr_url u own rep number =
     (u = ''https://github.com/'' @ own @ ''/'' @ rep @ ''/pull/'' @ number \<and>
      own \<noteq> [] \<and> list_all repo_char own \<and>
      rep \<noteq> [] \<and> list_all repo_char rep \<and>
      number \<noteq> [] \<and> list_all py_isdigit number)"

definition contains_pr_url :: "string \<Rightarrow> bool" where
  "contains_pr_url text =
     (\<exists>pre u post own rep number. text = pre @ u @ post \<and> is_pr_url u own rep number)"

definition first_pr_url ::
  "string \<Rightarrow> string \<Rightarrow> string \<Rightarrow> string \<Rightarrow> string \<Rightarrow> string \<Rightarrow> string \<Rightarrow> bool" where
  \<comment> \<open>\<open>u\<close>, between \<open>pre\<close> and \<open>post\<close>, is the first URL of the text, with all its digits\<close>
  "first_pr_url text pre u post own rep number =
     (text = pre @ u @ post \<and> is_pr_url u own rep number \<and>
      (post = [] \<or> \<not> py_isdigit (hd post)) \<and>
      (\<forall>pre' u' post' own' rep' number'.
         text = pre' @ u' @ post' \<and> is_pr_url u' own' rep' number' \<longrightarrow> length pre \<le> length pre'))"

section \<open>SHA-256 and HMAC (hashlib, hmac)\<close>

text \<open>
  \<open>hmac.new(key, msg, hashlib.sha256).hexdigest()\<close> is computed as FIPS 180-4 and RFC 2104
  define it, on bytes.
\<close>

type_synonym byte = "8 word"

type_synonym sha_state =
  "32 word \<times> 32 word \<times> 32 word \<times> 32 word \<times> 32 word \<times> 32 word \<times> 32 word \<times> 32 word"

definition rotr :: "nat \<Rightarrow> 32 word \<Rightarrow> 32 word" where
  "rotr n w = drop_bit n w OR push_bit (32 - n) w"

definition ch :: "32 word \<Rightarrow> 32 word \<Rightarrow> 32 word \<Rightarrow> 32 word" where
  "ch x y z = (x AND y) XOR (NOT x AND z)"

definition maj :: "32 word \<Rightarrow> 32 word \<Rightarrow> 32 word \<Rightarrow> 32 word" where
  "maj x y z = (x AND y) XOR (x AND z) XOR (y AND z)"

definition bsig0 :: "32 word \<Rightarrow> 32 word" where
  "bsig0 x = rotr 2 x XOR rotr 13 x XOR rotr 22 x"

definition bsig1 :: "32 word \<Rightarrow> 32 word" where
  "bsig1 x = rotr 6 x XOR rotr 11 x XOR rotr 25 x"

definition ssig0 :: "32 word \<Rightarrow> 32 word" where
  "ssig0 x = rotr 7 x XOR rotr 18 x XOR drop_bit 3 x"

definition ssig1 :: "32 word \<Rightarrow> 32 word" where
  "ssig1 x = rotr 17 x XOR rotr 19 x XOR drop_bit 10 x"

definition sha256_K :: "32 word list" where
  "sha256_K =
     [0x428A2F98, 0x71374491, 0xB5C0FBCF, 0xE9B5DBA5,
      0x3956C25B, 0x59F111F1, 0x923F82A4, 0xAB1C5ED5,
      0xD807AA98, 0x12835B01, 0x243185BE, 0x550C7DC3,
      0x72BE5D74, 0x80DEB1FE, 0x9BDC06A7, 0xC19BF174,
      0xE49B69C1, 0xEFBE4786, 0x0FC19DC6, 0x240CA1CC,
      0x2DE92C6F, 0x4A7484AA, 0x5CB0A9DC, 0x76F988DA,
      0x983E5152, 0xA831C66D, 0xB00327C8, 0xBF597FC7,
      0xC6E00BF3, 0xD5A79147, 0x06CA6351, 0x14292967,
      0x27B70A85, 0x2E1B2138, 0x4D2C6DFC, 0x53380D13,
      0x650A7354, 0x766A0ABB, 0x81C2C92E, 0x92722C85,
      0xA2BFE8A1, 0xA81A664B, 0xC24B8B70, 0xC76C51A3,
      0xD192E819, 0xD6990624, 0xF40E3585, 0x106AA070,
      0x19A4C116, 0x1E376C08, 0x2748774C, 0x34B0BCB5,
      0x391C0CB3, 0x4ED8AA4A, 0x5B9CCA4F, 0x682E6FF3,
      0x748F82EE, 0x78A5636F, 0x84C87814, 0x8CC70208,
      0x90BEFFFA, 0xA4506CEB, 0xBEF9A3F7, 0xC67178F2]"

definition sha256_H0 :: sha_state where
  "sha256_H0 =
     (0x6A09E667, 0xBB67AE85, 0x3C6EF372, 0xA54FF53A, 0x510E527F, 0x9B05688C, 0x1F83D9AB, 0x5BE0CD19)"

definition be32 :: "byte list \<Rightarrow> 32 word" where
  \<comment> \<open>a big-endian word from its bytes\<close>
  "be32 bs = foldl (\<lambda>a b. push_bit 8 a OR ucast b) 0 bs"

definition word_bytes :: "32 word \<Rightarrow> byte list" where
  "word_bytes w = [ucast (drop_bit 24 w), ucast (drop_bit 16 w), ucast (drop_bit 8 w), ucast w]"

definition length_bytes :: "nat \<Rightarrow> byte list" where
  \<comment> \<open>the bit length of the message as 64 bits, big-endian\<close>
  "length_bytes n =
     (let w = (of_nat n :: 64 word)
      in map (\<lambda>i. ucast (drop_bit (8 * i) w)) [7, 6, 5, 4, 3, 2, 1, 0])"

definition sha256_pad :: "byte list \<Rightarrow> byte list" where
  "sha256_pad msg =
     msg @ [0x80] @ replicate ((119 - length msg mod 64) mod 64) 0 @ length_bytes (8 * length msg)"

function chunks :: "nat \<Rightarrow> 'a list \<Rightarrow> 'a list list" where
  "chunks n xs = (if n = 0 \<or> xs = [] then [] else take n xs # chunks n (drop n xs))"
  by pat_completeness auto
termination
  by (relation "measure (\<lambda>(n, xs). length xs)") auto

declare chunks.simps [simp del]

definition schedule_step :: "32 word list \<Rightarrow> 32 word list" where
  \<comment> \<open>the next word of the message schedule, from the sixteen before it\<close>
  "schedule_step ws =
     ws @ [ssig1 (ws ! (length ws - 2)) + ws ! (length ws - 7)
           + ssig0 (ws ! (length ws - 15)) + ws ! (length ws - 16)]"

definition schedule :: "32 word list \<Rightarrow> 32 word list" where
  "schedule ws = foldl (\<lambda>acc t. schedule_step acc) ws [16..<64]"

definition sha256_round :: "sha_state \<Rightarrow> 32 word \<times> 32 word \<Rightarrow> sha_state" where
  "sha256_round s kw =
     (case s of (a, b, c, d, e, f, g, h) \<Rightarrow>
        (let t1 = h + bsig1 e + ch e f g + fst kw + snd kw;
             t2 = bsig0 a + maj a b c
         in (t1 + t2, a, b, c, d + t1, e, f, g)))"

definition sha256_add :: "sha_state \<Rightarrow> sha_state \<Rightarrow> sha_state" where
  "sha256_add s t =
     (case s of (a, b, c, d, e, f, g, h) \<Rightarrow>
        (case t of (a', b', c', d', e', f', g', h') \<Rightarrow>
           (a + a', b + b', c + c', d + d', e + e', f + f', g + g', h + h')))"

definition sha256_compress :: "sha_state \<Rightarrow> byte list \<Rightarrow> sha_state" where
  "sha256_compress hs block =
     sha256_add hs (foldl sha256_round hs (zip sha256_K (schedule (map be32 (chunks 4 block)))))"

definition sha256 :: "byte list \<Rightarrow> byte list" where
  "sha256 msg =
     (case foldl sha256_compress sha256_H0 (chunks 64 (sha256_pad msg)) of
        (a, b, c, d, e, f, g, h) \<Rightarrow> concat (map word_bytes [a, b, c, d, e, f, g, h]))"

definition hmac_sha256 :: "byte list \<Rightarrow> byte list \<Rightarrow> byte list" where
  "hmac_sha256 key msg =
     (let k = (if length key > 64 then sha256 key else key);
          block = k @ replicate (64 - length k) 0
      in sha256 (map (\<lambda>b. b XOR 0x5C) block @ sha256 (map (\<lambda>b. b XOR 0x36) block @ msg)))"

definition hexdigest :: "byte list \<Rightarrow> string" where
  "hexdigest bs = concat (map (\<lambda>b. hex_byte (unat b)) bs)"

section \<open>UTF-8 (\<open>bytes.decode\<close>, \<open>str.encode\<close>)\<close>

text \<open>
  \<open>body.decode('utf-8')\<close> is the strict decoder: it accepts the well-formed byte
  sequences only (no overlong form, no surrogate, nothing above U+10FFFF) and raises
  \<open>UnicodeDecodeError\<close> on the first other byte. \<open>s.encode('utf-8')\<close> raises
  \<open>UnicodeEncodeError\<close> on a surrogate.
\<close>

definition is_cont :: "nat \<Rightarrow> bool" where
  "is_cont n = (0x80 \<le> n \<and> n \<le> 0xBF)"

definition second_of_3 :: "nat \<Rightarrow> nat \<Rightarrow> bool" where
  \<comment> \<open>the second byte that may follow the lead byte \<open>n0\<close> of a 3-byte sequence\<close>
  "second_of_3 n0 n1 =
     (if n0 = 0xE0 then 0xA0 \<le> n1 \<and> n1 \<le> 0xBF
      else if n0 = 0xED then 0x80 \<le> n1 \<and> n1 \<le> 0x9F
      else 0x80 \<le> n1 \<and> n1 \<le> 0xBF)"

definition second_of_4 :: "nat \<Rightarrow> nat \<Rightarrow> bool" where
  "second_of_4 n0 n1 =
     (if n0 = 0xF0 then 0x90 \<le> n1 \<and> n1 \<le> 0xBF
      else if n0 = 0xF4 then 0x80 \<le> n1 \<and> n1 \<le> 0x8F
      else 0x80 \<le> n1 \<and> n1 \<le> 0xBF)"

definition cons_ok :: "'a \<Rightarrow> py_exn + 'a list \<Rightarrow> py_exn + 'a list" where
  "cons_ok x r = (case r of Inl e \<Rightarrow> Inl e | Inr xs \<Rightarrow> Inr (x # xs))"

fun utf8_decode :: "byte list \<Rightarrow> py_exn + nat list" where
  "utf8_decode [] = Inr []"
| "utf8_decode [b0] =
     (if unat b0 < 0x80 then Inr [unat b0] else Inl UnicodeDecodeError)"
| "utf8_decode [b0, b1] =
     (if unat b0 < 0x80 then cons_ok (unat b0) (utf8_decode [b1])
      else if 0xC2 \<le> unat b0 \<and> unat b0 \<le> 0xDF \<and> is_cont (unat b1)
      then Inr [(unat b0 - 0xC0) * 64 + (unat b1 - 0x80)]
      else Inl UnicodeDecodeError)"
| "utf8_decode [b0, b1, b2] =
     (if unat b0 < 0x80 then cons_ok (unat b0) (utf8_decode [b1, b2])
      else if 0xC2 \<le> unat b0 \<and> unat b0 \<le> 0xDF \<and> is_cont (unat b1)
      then cons_ok ((unat b0 - 0xC0) * 64 + (unat b1 - 0x80)) (utf8_decode [b2])
      else if 0xE0 \<le> unat b0 \<and> unat b0 \<le> 0xEF \<and> second_of_3 (unat b0) (unat b1) \<and> is_cont (unat b2)
      then Inr [(unat b0 - 0xE0) * 4096 + (unat b1 - 0x80) * 64 + (unat b2 - 0x80)]
      else Inl UnicodeDecodeError)"
| "utf8_decode (b0 # b1 # b2 # b3 # bs) =
     (if unat b0 < 0x80 then cons_ok (unat b0) (utf8_decode (b1 # b2 # b3 # bs))
      else if 0xC2 \<le> unat b0 \<and> unat b0 \<le> 0xDF \<and> is_cont (unat b1)
      then cons_ok ((unat b0 - 0xC0) * 64 + (unat b1 - 0x80)) (utf8_decode (b2 # b3 # bs))
      else if 0xE0 \<le> unat b0 \<and> unat b0 \<le> 0xEF \<and> second_of_3 (unat b0) (unat b1) \<and> is_cont (unat b2)
      then cons_ok ((unat b0 - 0xE0) * 4096 + (unat b1 - 0x80) * 64 + (unat b2 - 0x80))
             (utf8_decode (b3 # bs))
      else if 0xF0 \<le> unat b0 \<and> unat b0 \<le> 0xF4 \<and> second_of_4 (unat b0) (unat b1) \<and>
              is_cont (unat b2) \<and> is_cont (unat b3)
      then cons_ok ((unat b0 - 0xF0) * 262144 + (unat b1 - 0x80) * 4096 + (unat b2 - 0x80) * 64
                    + (unat b3 - 0x80))
             (utf8_decode bs)
      else Inl UnicodeDecodeError)"

definition utf8_encode_cp :: "nat \<Rightarrow> py_exn + byte list" where
  "utf8_encode_cp c =
     (if c < 0x80 then Inr [of_nat c]
      else if c < 0x800 then Inr [of_nat (0xC0 + c div 64), of_nat (0x80 + c mod 64)]
      else if c < 0x10000 then
        (if 0xD800 \<le> c \<and> c \<le> 0xDFFF then Inl UnicodeEncodeError
         else Inr [of_nat (0xE0 + c div 4096), of_nat (0x80 + c div 64 mod 64), of_nat (0x80 + c mod 64)])
      else if c < 0x110000 then
        Inr [of_nat (0xF0 + c div 262144), of_nat (0x80 + c div 4096 mod 64),
             of_nat (0x80 + c div 64 mod 64), of_nat (0x80 + c mod 64)]
      else Inl UnicodeEncodeError)"

fun utf8_encode :: "ustr \<Rightarrow> py_exn + byte list" where
  "utf8_encode [] = Inr []"
| "utf8_encode (c # cs) =
     (case utf8_encode_cp c of
        Inl e \<Rightarrow> Inl e
      | Inr bs \<Rightarrow> (case utf8_encode cs of Inl e \<Rightarrow> Inl e | Inr r \<Rightarrow> Inr (bs @ r)))"

section \<open>slack_handler.py: the signature check\<close>

text \<open>
  \<open>time.time()\<close> is an input of the model, \<open>now\<close>, in seconds: the value of the
  float, as a rational number. In \<open>time.time() - request_time\<close> the \<open>int\<close> is first
  converted to a float, which raises \<open>OverflowError\<close> when it is too large and rounds
  it otherwise; the subtraction then rounds its exact result. Both roundings are to the
  nearest float, ties to the even significand (53 bits, least exponent \<open>-1022\<close>). A
  result beyond the largest float is \<open>inf\<close> in the program; \<open>round_double\<close> leaves
  it as a rational of at least \<open>2^1024\<close>, which compares with 300 as \<open>inf\<close> does.
\<close>

definition round_half_even :: "rat \<Rightarrow> int" where
  "round_half_even r =
     (let f = \<lfloor>r\<rfloor>; d = r - of_int f
      in if d < 1 / 2 then f else if 1 / 2 < d then f + 1 else if even f then f else f + 1)"

definition pow2 :: "int \<Rightarrow> rat" where
  "pow2 k = (if 0 \<le> k then 2 ^ nat k else 1 / 2 ^ nat (- k))"

definition float_exponent :: "rat \<Rightarrow> int" where
  \<comment> \<open>the \<open>e\<close> with \<open>2^e \<le> |x| < 2^(e+1)\<close>, for \<open>x \<noteq> 0\<close>\<close>
  "float_exponent x =
     (let k = bitlen (fst (quotient_of \<bar>x\<bar>)) - bitlen (snd (quotient_of \<bar>x\<bar>))
      in if pow2 k \<le> \<bar>x\<bar> then k else k - 1)"

definition round_double :: "rat \<Rightarrow> rat" where
  "round_double x =
     (if x = 0 then 0
      else let ulp = pow2 (max (float_exponent x) (- 1022) - 52)
           in of_int (round_half_even (x / ulp)) * ulp)"

definition float_int_limit :: int where
  \<comment> \<open>the least \<open>n\<close> for which \<open>float(n)\<close> raises: \<open>2^1024 - 2^970\<close>\<close>
  "float_int_limit = 2 ^ 1024 - 2 ^ 970"

definition float_max :: int where
  \<comment> \<open>\<open>sys.float_info.max\<close>, the largest finite float\<close>
  "float_max = 2 ^ 1024 - 2 ^ 971"

definition is_ascii :: "char \<Rightarrow> bool" where
  "is_ascii c = ((of_char c :: nat) < 128)"

definition compare_digest :: "string \<Rightarrow> string \<Rightarrow> py_exn + bool" where
  \<comment> \<open>\<open>hmac.compare_digest\<close> on two \<open>str\<close>: both must be ASCII\<close>
  "compare_digest a b =
     (if list_all is_ascii a \<and> list_all is_ascii b then Inr (a = b) else Inl TypeError)"

definition verify_slack_signature :: "rat \<Rightarrow> byte list \<Rightarrow> string \<Rightarrow> string \<Rightarrow> string \<Rightarrow> py_exn + bool" where
  "verify_slack_signature now body timestamp signature signing_secret =
     (case py_int timestamp of
        Inl e \<Rightarrow> if e = ValueError then Inr False else Inl e
      | Inr request_time \<Rightarrow>
          if float_int_limit \<le> \<bar>request_time\<bar> then Inl OverflowError
          else if \<bar>round_double (now - round_double (of_int request_time))\<bar> > 300 then Inr False
          else
            (case utf8_decode body of
               Inl e \<Rightarrow> Inl e
             | Inr text \<Rightarrow>
                 (let base_string = ustr ''v0:'' @ ustr timestamp @ ustr '':'' @ text
                  in case utf8_encode (ustr signing_secret) of
                       Inl e \<Rightarrow> Inl e
                     | Inr key \<Rightarrow>
                         (case utf8_encode base_string of
                            Inl e \<Rightarrow> Inl e
                          | Inr msg \<Rightarrow>
                              (let expected = ''v0='' @ hexdigest (hmac_sha256 key msg)
                               in compare_digest expected signature)))))"

text \<open>
  The signature that Slack computes, in the words of the specification: \<open>v0=\<close> and the
  hexadecimal HMAC-SHA256 digest, keyed by the shared secret, of \<open>v0:\<close>, the timestamp,
  \<open>:\<close> and the raw body.
\<close>

definition str_encode :: "string \<Rightarrow> byte list" where
  \<comment> \<open>the UTF-8 bytes of a string of code points below 256\<close>
  "str_encode s =
     concat (map (\<lambda>c. let n = (of_char c :: nat)
                        in if n < 128 then [of_nat n]
                           else [of_nat (0xC0 + n div 64), of_nat (0x80 + n mod 64)]) s)"

definition slack_signature :: "string \<Rightarrow> string \<Rightarrow> byte list \<Rightarrow> string" where
  "slack_signature secret timestamp body =
     ''v0='' @ hexdigest (hmac_sha256 (str_encode secret) (str_encode (''v0:'' @ timestamp @ '':'') @ body))"

section \<open>Properties of the Python library functions\<close>

lemma py_in_iff: "py_in needle hay \<longleftrightarrow> (\<exists>p s. hay = p @ needle @ s)"
proof (induction hay)
  case Nil
  then show ?case by auto
next
  case (Cons c cs)
  show ?case
  proof
    assume "py_in needle (c # cs)"
    then consider "prefix needle (c # cs)" | "py_in needle cs" by auto
    then show "\<exists>p s. c # cs = p @ needle @ s"
    proof cases
      case 1
      then obtain s where "c # cs = needle @ s" by (auto simp: prefix_def)
      then have "c # cs = [] @ needle @ s" by simp
      then show ?thesis by blast
    next
      case 2
      with Cons.IH obtain p s where "cs = p @ needle @ s" by blast
      then have "c # cs = (c # p) @ needle @ s" by simp
      then show ?thesis by blast
    qed
  next
    assume "\<exists>p s. c # cs = p @ needle @ s"
    then obtain p s where eq: "c # cs = p @ needle @ s" by blast
    show "py_in needle (c # cs)"
    proof (cases p)
      case Nil
      with eq have "prefix needle (c # cs)" by (simp add: prefix_def)
      then show ?thesis by simp
    next
      case (Cons a p')
      with eq have "cs = p' @ needle @ s" by simp
      with Cons.IH have "py_in needle cs" by blast
      then show ?thesis by simp
    qed
  qed
qed

lemma py_str_nat_nonempty: "py_str_nat n \<noteq> []"
  by (subst py_str_nat.simps) simp

lemma length_py_str_nat: "0 < k \<Longrightarrow> length (py_str_nat n) \<le> k \<longleftrightarrow> n < 10 ^ k"
proof (induction n arbitrary: k rule: py_str_nat.induct)
  case (1 n)
  show ?case
  proof (cases "n < 10")
    case True
    have "(10::nat) ^ 1 \<le> 10 ^ k" using 1(2) by (intro power_increasing) simp_all
    then have "n < 10 ^ k" using True by simp
    moreover have "length (py_str_nat n) = 1" using True by (subst py_str_nat.simps) simp
    ultimately show ?thesis using 1(2) by simp
  next
    case False
    have len: "length (py_str_nat n) = Suc (length (py_str_nat (n div 10)))"
      using False by (subst py_str_nat.simps) simp
    show ?thesis
    proof (cases k)
      case 0
      with 1(2) show ?thesis by simp
    next
      case (Suc j)
      show ?thesis
      proof (cases "j = 0")
        case True
        with Suc False len py_str_nat_nonempty [of "n div 10"] show ?thesis
          by (cases "py_str_nat (n div 10)") auto
      next
        case j: False
        then have "length (py_str_nat (n div 10)) \<le> j \<longleftrightarrow> n div 10 < 10 ^ j"
          using 1(1) [OF False, of j] by simp
        moreover have "n div 10 < 10 ^ j \<longleftrightarrow> n < 10 ^ Suc j"
          by (simp add: div_less_iff_less_mult mult.commute)
        ultimately show ?thesis using len Suc by simp
      qed
    qed
  qed
qed

text \<open>
  \<open>str(i)\<close> succeeds exactly for the integers of at most 4300 digits.
\<close>

lemma py_str_int_ok_iff: "(\<exists>s. py_str_int i = Inr s) \<longleftrightarrow> \<bar>i\<bar> < 10 ^ int_max_str_digits"
proof -
  have "(\<exists>s. py_str_int i = Inr s) \<longleftrightarrow> length (py_str_nat (nat \<bar>i\<bar>)) \<le> int_max_str_digits"
    by (auto simp: py_str_int_def Let_def)
  also have "\<dots> \<longleftrightarrow> nat \<bar>i\<bar> < 10 ^ int_max_str_digits"
    by (rule length_py_str_nat) (simp add: int_max_str_digits_def)
  also have "\<dots> \<longleftrightarrow> \<bar>i\<bar> < 10 ^ int_max_str_digits"
    by (simp add: nat_less_iff)
  finally show ?thesis .
qed

lemma py_str_int_error: "py_str_int i = Inl e \<Longrightarrow> e = ValueError"
  by (auto simp: py_str_int_def Let_def split: if_splits)

lemma py_str_int_42: "py_str_int 42 = Inr ''42''"
  by (simp add: py_str_int_def py_str_nat.simps digit_char_def char_of_def bit_0 int_max_str_digits_def)

lemma py_str_int_status:
  "py_str_int 404 = Inr ''404''" "py_str_int 405 = Inr ''405''" "py_str_int 409 = Inr ''409''"
  "py_str_int 500 = Inr ''500''" "py_str_int 502 = Inr ''502''"
  by (simp_all add: py_str_int_def py_str_nat.simps digit_char_def char_of_def bit_0 int_max_str_digits_def)

section \<open>Properties of the authorization gate\<close>

lemma empty_id_not_listed: "[] \<notin> authorized_user_ids st"
  by (auto simp: authorized_user_ids_def)

text \<open>
  C7. \<open>is_authorized\<close> returns false for every sender identity when the authorized set
  is empty (the empty identity included); when the set is not empty it returns the result
  of the membership test of the identity in the set.
\<close>

theorem is_authorized_fail_safe:
  "(authorized_user_ids st = {} \<longrightarrow> \<not> is_authorized uid st) \<and>
   (authorized_user_ids st \<noteq> {} \<longrightarrow> is_authorized uid st = (uid \<in> authorized_user_ids st))"
  by (simp add: is_authorized_def)

theorem is_authorized_fail_safe_witness:
  "authorized_user_ids \<lparr>slack_bot_token = ''xoxb-test'', slack_signing_secret = ''s'',
      github_token = ''ghp_test'', authorized_slack_user_ids = []\<rparr> = {} \<and>
   \<not> is_authorized [] \<lparr>slack_bot_token = ''xoxb-test'', slack_signing_secret = ''s'',
      github_token = ''ghp_test'', authorized_slack_user_ids = []\<rparr> \<and>
   authorized_user_ids \<lparr>slack_bot_token = ''xoxb-test'', slack_signing_secret = ''s'',
      github_token = ''ghp_test'', authorized_slack_user_ids = ''U111, U222''\<rparr> = {''U111'', ''U222''} \<and>
   is_authorized ''U222'' \<lparr>slack_bot_token = ''xoxb-test'', slack_signing_secret = ''s'',
      github_token = ''ghp_test'', authorized_slack_user_ids = ''U111, U222''\<rparr> \<and>
   \<not> is_authorized ''U999'' \<lparr>slack_bot_token = ''xoxb-test'', slack_signing_secret = ''s'',
      github_token = ''ghp_test'', authorized_slack_user_ids = ''U111, U222''\<rparr>"
proof -
  let ?none = "\<lparr>slack_bot_token = ''xoxb-test'', slack_signing_secret = ''s'',
      github_token = ''ghp_test'', authorized_slack_user_ids = []\<rparr>"
  let ?two = "\<lparr>slack_bot_token = ''xoxb-test'', slack_signing_secret = ''s'',
      github_token = ''ghp_test'', authorized_slack_user_ids = ''U111, U222''\<rparr>"
  have e: "authorized_user_ids ?none = {}"
    by (simp add: authorized_user_ids_def py_strip_def)
  have t: "authorized_user_ids ?two = {''U111'', ''U222''}"
    by (simp add: authorized_user_ids_def py_strip_def py_isspace_def)
  have ne: "authorized_user_ids ?two \<noteq> {}"
    by (simp add: t)
  from is_authorized_fail_safe [of ?none "[]"] e have 1: "\<not> is_authorized [] ?none"
    by blast
  from is_authorized_fail_safe [of ?two "''U222''"] ne t have 2: "is_authorized ''U222'' ?two"
    by simp
  from is_authorized_fail_safe [of ?two "''U999''"] ne t have 3: "\<not> is_authorized ''U999'' ?two"
    by simp
  from e t 1 2 3 show ?thesis by blast
qed

section \<open>Properties of the merge orchestrator\<close>

lemma respx_mock_fetch: "req_method request = GET \<Longrightarrow> respx_mock (Inr response) merge_reply request = Inr response"
  by (simp add: respx_mock_def)

lemma get_pr_state_sent:
  assumes "py_str_int num = Inr n"
  shows "snd (get_pr_state client own rep num hdrs) =
     [\<lparr>req_method = GET,
       req_url = GITHUB_API_BASE @ ''/repos/'' @ own @ ''/'' @ rep @ ''/pulls/'' @ n,
       req_headers = hdrs, req_json = None\<rparr>]"
  using assms by (simp add: get_pr_state_def Let_def)

lemma get_pr_state_long_number:
  "py_str_int num = Inl e \<Longrightarrow> get_pr_state client own rep num hdrs = (Inl e, [])"
  by (simp add: get_pr_state_def)

lemma get_pr_state_reply:
  assumes "\<And>request. req_method request = GET \<Longrightarrow> client request = Inr response"
    and "py_str_int num = Inr n"
  shows "fst (get_pr_state client own rep num hdrs) =
     (if status_code response = 404 then
        Inr (Some \<lparr>status = NOT_FOUND,
          message = ustr (''PR #'' @ n @ '' not found in '' @ own @ ''/'' @ rep @ ''.'')\<rparr>)
      else if status_code response \<noteq> 200 then
        (case py_str_int (status_code response) of
           Inl e \<Rightarrow> Inl e
         | Inr code \<Rightarrow>
             Inr (Some \<lparr>status = ERROR,
               message = ustr (''Failed to fetch PR #'' @ n @ '': HTTP '' @ code @ ''.'')\<rparr>))
      else case json response of
        None \<Rightarrow> Inl JSONDecodeError
      | Some (PyDict d) \<Rightarrow>
          if py_truthy (dict_get d ''merged'' PyNone) then
            Inr (Some \<lparr>status = ALREADY_MERGED,
                        message = ustr (''PR #'' @ n @ '' is already merged.'')\<rparr>)
          else if dict_get d ''state'' PyNone = PyStr ''closed'' then
            Inr (Some \<lparr>status = ERROR,
                        message = ustr (''PR #'' @ n @ '' is closed without being merged.'')\<rparr>)
          else if dict_get d ''mergeable'' PyNone = PyBool False then
            Inr (Some \<lparr>status = CONFLICT, message = conflict_message n\<rparr>)
          else Inr None
      | Some _ \<Rightarrow> Inl AttributeError)"
  using assms
  by (simp add: get_pr_state_def Let_def response_json_def py_get_def split: option.splits py_value.splits)

lemma merge_pull_request_long_number:
  "py_str_int num = Inl e \<Longrightarrow> merge_pull_request client own rep num token = (Inl e, [])"
  by (simp add: merge_pull_request_def)

lemma merge_pull_request_short_circuit:
  assumes "py_str_int num = Inr n"
    and "fst (get_pr_state client own rep num
              [(''Authorization'', ''Bearer '' @ token),
               (''Accept'', ''application/vnd.github+json''),
               (''X-GitHub-Api-Version'', ''2022-11-28'')]) = Inr (Some outcome)"
  shows "fst (merge_pull_request client own rep num token) = Inr outcome \<and>
         \<not> merge_call_issued (snd (merge_pull_request client own rep num token))"
  using assms get_pr_state_sent [OF assms(1), of client own rep
              "[(''Authorization'', ''Bearer '' @ token),
               (''Accept'', ''application/vnd.github+json''),
               (''X-GitHub-Api-Version'', ''2022-11-28'')]"]
  by (auto simp: merge_pull_request_def Let_def merge_call_issued_def
           split: prod.splits sum.splits option.splits)

lemma merge_pull_request_fetch_raises:
  assumes "py_str_int num = Inr n"
    and "fst (get_pr_state client own rep num
              [(''Authorization'', ''Bearer '' @ token),
               (''Accept'', ''application/vnd.github+json''),
               (''X-GitHub-Api-Version'', ''2022-11-28'')]) = Inl e"
  shows "fst (merge_pull_request client own rep num token) = Inl e \<and>
         \<not> merge_call_issued (snd (merge_pull_request client own rep num token))"
  using assms get_pr_state_sent [OF assms(1), of client own rep
              "[(''Authorization'', ''Bearer '' @ token),
               (''Accept'', ''application/vnd.github+json''),
               (''X-GitHub-Api-Version'', ''2022-11-28'')]"]
  by (auto simp: merge_pull_request_def Let_def merge_call_issued_def
           split: prod.splits sum.splits option.splits)

lemma merge_pull_request_proceeds:
  assumes num: "py_str_int num = Inr n"
    and "fst (get_pr_state client own rep num
              [(''Authorization'', ''Bearer '' @ token),
               (''Accept'', ''application/vnd.github+json''),
               (''X-GitHub-Api-Version'', ''2022-11-28'')]) = Inr None"
  shows "\<exists>fetch put. snd (merge_pull_request client own rep num token) = [fetch, put] \<and>
           req_method fetch = GET \<and> req_method put = PUT \<and>
           req_url put = req_url fetch @ ''/merge'' \<and>
           req_json put = Some (PyDict [(''merge_method'', PyStr ''squash'')]) \<and>
           fst (merge_pull_request client own rep num token) =
             (case client put of Inl e \<Rightarrow> Inl e | Inr response \<Rightarrow> parse_merge_response response num)"
proof -
  let ?hdrs = "[(''Authorization'', ''Bearer '' @ token),
               (''Accept'', ''application/vnd.github+json''),
               (''X-GitHub-Api-Version'', ''2022-11-28'')]"
  let ?pr_url = "GITHUB_API_BASE @ ''/repos/'' @ own @ ''/'' @ rep @ ''/pulls/'' @ n"
  let ?fetch = "\<lparr>req_method = GET, req_url = ?pr_url, req_headers = ?hdrs, req_json = None\<rparr>"
  let ?put = "\<lparr>req_method = PUT, req_url = ?pr_url @ ''/merge'', req_headers = ?hdrs,
               req_json = Some (PyDict [(''merge_method'', PyStr ''squash'')])\<rparr>"
  from assms get_pr_state_sent [OF num, of client own rep ?hdrs]
  have g: "get_pr_state client own rep num ?hdrs = (Inr None, [?fetch])"
    by (simp add: prod_eq_iff)
  have s: "snd (merge_pull_request client own rep num token) = [?fetch, ?put]"
    using g num by (simp add: merge_pull_request_def Let_def split: sum.splits)
  have f: "fst (merge_pull_request client own rep num token) =
             (case client ?put of Inl e \<Rightarrow> Inl e | Inr response \<Rightarrow> parse_merge_response response num)"
    using g num by (simp add: merge_pull_request_def Let_def split: sum.splits)
  show ?thesis
    apply (rule exI [of _ ?fetch])
    apply (rule exI [of _ ?put])
    using s f by simp
qed

text \<open>
  C3, as amended. Let the pull number have at most 4300 digits, and let the fetch of Step 1
  return a response whose status is not 200 or whose body is a JSON object. The first rule
  that matches, in this order, decides, and whenever it gives an outcome no merge call is
  sent: 404 gives \<open>NOT_FOUND\<close>; another status that is not 200 gives \<open>ERROR\<close>; a truthy
  \<open>merged\<close> gives \<open>ALREADY_MERGED\<close>; \<open>state\<close> equal to \<open>"closed"\<close> gives \<open>ERROR\<close>;
  \<open>mergeable\<close> being \<open>false\<close> gives \<open>CONFLICT\<close>. In every remaining case (a null or
  absent \<open>mergeable\<close> included) exactly one merge call follows the fetch and its reply
  decides the result.
\<close>

theorem fetch_rules_in_order:
  assumes fetch: "\<And>request. req_method request = GET \<Longrightarrow> client request = Inr response"
    and body: "status_code response \<noteq> 200 \<or> json response = Some (PyDict d)"
    and num: "py_str_int num = Inr n"
  shows
    "(status_code response = 404 \<longrightarrow>
        fst (merge_pull_request client own rep num token) =
          Inr \<lparr>status = NOT_FOUND,
               message = ustr (''PR #'' @ n @ '' not found in '' @ own @ ''/'' @ rep @ ''.'')\<rparr> \<and>
        \<not> merge_call_issued (snd (merge_pull_request client own rep num token))) \<and>
     (status_code response \<noteq> 404 \<and> status_code response \<noteq> 200 \<and>
      py_str_int (status_code response) = Inr code \<longrightarrow>
        fst (merge_pull_request client own rep num token) =
          Inr \<lparr>status = ERROR,
               message = ustr (''Failed to fetch PR #'' @ n @ '': HTTP '' @ code @ ''.'')\<rparr> \<and>
        \<not> merge_call_issued (snd (merge_pull_request client own rep num token))) \<and>
     (status_code response = 200 \<and> py_truthy (dict_get d ''merged'' PyNone) \<longrightarrow>
        fst (merge_pull_request client own rep num token) =
          Inr \<lparr>status = ALREADY_MERGED,
               message = ustr (''PR #'' @ n @ '' is already merged.'')\<rparr> \<and>
        \<not> merge_call_issued (snd (merge_pull_request client own rep num token))) \<and>
     (status_code response = 200 \<and> \<not> py_truthy (dict_get d ''merged'' PyNone) \<and>
      dict_get d ''state'' PyNone = PyStr ''closed'' \<longrightarrow>
        fst (merge_pull_request client own rep num token) =
          Inr \<lparr>status = ERROR,
               message = ustr (''PR #'' @ n @ '' is closed without being merged.'')\<rparr> \<and>
        \<not> merge_call_issued (snd (merge_pull_request client own rep num token))) \<and>
     (status_code response = 200 \<and> \<not> py_truthy (dict_get d ''merged'' PyNone) \<and>
      dict_get d ''state'' PyNone \<noteq> PyStr ''closed'' \<and>
      dict_get d ''mergeable'' PyNone = PyBool False \<longrightarrow>
        fst (merge_pull_request client own rep num token) =
          Inr \<lparr>status = CONFLICT, message = conflict_message n\<rparr> \<and>
        \<not> merge_call_issued (snd (merge_pull_request client own rep num token))) \<and>
     (status_code response = 200 \<and> \<not> py_truthy (dict_get d ''merged'' PyNone) \<and>
      dict_get d ''state'' PyNone \<noteq> PyStr ''closed'' \<and>
      dict_get d ''mergeable'' PyNone \<noteq> PyBool False \<longrightarrow>
        (\<exists>fetch put. snd (merge_pull_request client own rep num token) = [fetch, put] \<and>
           req_method fetch = GET \<and> req_method put = PUT \<and>
           req_url put = req_url fetch @ ''/merge'' \<and>
           req_json put = Some (PyDict [(''merge_method'', PyStr ''squash'')]) \<and>
           fst (merge_pull_request client own rep num token) =
             (case client put of Inl e \<Rightarrow> Inl e | Inr r \<Rightarrow> parse_merge_response r num)))"
proof -
  let ?hdrs = "[(''Authorization'', ''Bearer '' @ token),
               (''Accept'', ''application/vnd.github+json''),
               (''X-GitHub-Api-Version'', ''2022-11-28'')]"
  let ?G = "fst (get_pr_state client own rep num ?hdrs)"
  note st = get_pr_state_reply [of client response num n own rep ?hdrs, OF fetch num]
  note sc = merge_pull_request_short_circuit [OF num, of client own rep token]
  have 1: "status_code response = 404 \<longrightarrow>
        fst (merge_pull_request client own rep num token) =
          Inr \<lparr>status = NOT_FOUND,
               message = ustr (''PR #'' @ n @ '' not found in '' @ own @ ''/'' @ rep @ ''.'')\<rparr> \<and>
        \<not> merge_call_issued (snd (merge_pull_request client own rep num token))"
  proof
    assume "status_code response = 404"
    with st have "?G = Inr (Some \<lparr>status = NOT_FOUND,
               message = ustr (''PR #'' @ n @ '' not found in '' @ own @ ''/'' @ rep @ ''.'')\<rparr>)"
      by simp
    then show "fst (merge_pull_request client own rep num token) =
          Inr \<lparr>status = NOT_FOUND,
               message = ustr (''PR #'' @ n @ '' not found in '' @ own @ ''/'' @ rep @ ''.'')\<rparr> \<and>
        \<not> merge_call_issued (snd (merge_pull_request client own rep num token))"
      by (rule sc)
  qed
  have 2: "status_code response \<noteq> 404 \<and> status_code response \<noteq> 200 \<and>
      py_str_int (status_code response) = Inr code \<longrightarrow>
        fst (merge_pull_request client own rep num token) =
          Inr \<lparr>status = ERROR,
               message = ustr (''Failed to fetch PR #'' @ n @ '': HTTP '' @ code @ ''.'')\<rparr> \<and>
        \<not> merge_call_issued (snd (merge_pull_request client own rep num token))"
  proof
    assume "status_code response \<noteq> 404 \<and> status_code response \<noteq> 200 \<and>
      py_str_int (status_code response) = Inr code"
    with st have "?G = Inr (Some \<lparr>status = ERROR,
               message = ustr (''Failed to fetch PR #'' @ n @ '': HTTP '' @ code @ ''.'')\<rparr>)"
      by simp
    then show "fst (merge_pull_request client own rep num token) =
          Inr \<lparr>status = ERROR,
               message = ustr (''Failed to fetch PR #'' @ n @ '': HTTP '' @ code @ ''.'')\<rparr> \<and>
        \<not> merge_call_issued (snd (merge_pull_request client own rep num token))"
      by (rule sc)
  qed
  have ok: "json response = Some (PyDict d)" if "status_code response = 200"
    using that body by simp
  have 3: "status_code response = 200 \<and> py_truthy (dict_get d ''merged'' PyNone) \<longrightarrow>
        fst (merge_pull_request client own rep num token) =
          Inr \<lparr>status = ALREADY_MERGED,
               message = ustr (''PR #'' @ n @ '' is already merged.'')\<rparr> \<and>
        \<not> merge_call_issued (snd (merge_pull_request client own rep num token))"
  proof
    assume a: "status_code response = 200 \<and> py_truthy (dict_get d ''merged'' PyNone)"
    with st ok have "?G = Inr (Some \<lparr>status = ALREADY_MERGED,
               message = ustr (''PR #'' @ n @ '' is already merged.'')\<rparr>)"
      by simp
    then show "fst (merge_pull_request client own rep num token) =
          Inr \<lparr>status = ALREADY_MERGED,
               message = ustr (''PR #'' @ n @ '' is already merged.'')\<rparr> \<and>
        \<not> merge_call_issued (snd (merge_pull_request client own rep num token))"
      by (rule sc)
  qed
  have 4: "status_code response = 200 \<and> \<not> py_truthy (dict_get d ''merged'' PyNone) \<and>
      dict_get d ''state'' PyNone = PyStr ''closed'' \<longrightarrow>
        fst (merge_pull_request client own rep num token) =
          Inr \<lparr>status = ERROR,
               message = ustr (''PR #'' @ n @ '' is closed without being merged.'')\<rparr> \<and>
        \<not> merge_call_issued (snd (merge_pull_request client own rep num token))"
  proof
    assume a: "status_code response = 200 \<and> \<not> py_truthy (dict_get d ''merged'' PyNone) \<and>
      dict_get d ''state'' PyNone = PyStr ''closed''"
    with st ok have "?G = Inr (Some \<lparr>status = ERROR,
               message = ustr (''PR #'' @ n @ '' is closed without being merged.'')\<rparr>)"
      by simp
    then show "fst (merge_pull_request client own rep num token) =
          Inr \<lparr>status = ERROR,
               message = ustr (''PR #'' @ n @ '' is closed without being merged.'')\<rparr> \<and>
        \<not> merge_call_issued (snd (merge_pull_request client own rep num token))"
      by (rule sc)
  qed
  have 5: "status_code response = 200 \<and> \<not> py_truthy (dict_get d ''merged'' PyNone) \<and>
      dict_get d ''state'' PyNone \<noteq> PyStr ''closed'' \<and>
      dict_get d ''mergeable'' PyNone = PyBool False \<longrightarrow>
        fst (merge_pull_request client own rep num token) =
          Inr \<lparr>status = CONFLICT, message = conflict_message n\<rparr> \<and>
        \<not> merge_call_issued (snd (merge_pull_request client own rep num token))"
  proof
    assume a: "status_code response = 200 \<and> \<not> py_truthy (dict_get d ''merged'' PyNone) \<and>
      dict_get d ''state'' PyNone \<noteq> PyStr ''closed'' \<and>
      dict_get d ''mergeable'' PyNone = PyBool False"
    with st ok have "?G = Inr (Some \<lparr>status = CONFLICT, message = conflict_message n\<rparr>)"
      by simp
    then show "fst (merge_pull_request client own rep num token) =
          Inr \<lparr>status = CONFLICT, message = conflict_message n\<rparr> \<and>
        \<not> merge_call_issued (snd (merge_pull_request client own rep num token))"
      by (rule sc)
  qed
  have 6: "status_code response = 200 \<and> \<not> py_truthy (dict_get d ''merged'' PyNone) \<and>
      dict_get d ''state'' PyNone \<noteq> PyStr ''closed'' \<and>
      dict_get d ''mergeable'' PyNone \<noteq> PyBool False \<longrightarrow>
        (\<exists>fetch put. snd (merge_pull_request client own rep num token) = [fetch, put] \<and>
           req_method fetch = GET \<and> req_method put = PUT \<and>
           req_url put = req_url fetch @ ''/merge'' \<and>
           req_json put = Some (PyDict [(''merge_method'', PyStr ''squash'')]) \<and>
           fst (merge_pull_request client own rep num token) =
             (case client put of Inl e \<Rightarrow> Inl e | Inr r \<Rightarrow> parse_merge_response r num))"
  proof
    assume a: "status_code response = 200 \<and> \<not> py_truthy (dict_get d ''merged'' PyNone) \<and>
      dict_get d ''state'' PyNone \<noteq> PyStr ''closed'' \<and>
      dict_get d ''mergeable'' PyNone \<noteq> PyBool False"
    with st ok have "?G = Inr None" by simp
    then show "\<exists>fetch put. snd (merge_pull_request client own rep num token) = [fetch, put] \<and>
           req_method fetch = GET \<and> req_method put = PUT \<and>
           req_url put = req_url fetch @ ''/merge'' \<and>
           req_json put = Some (PyDict [(''merge_method'', PyStr ''squash'')]) \<and>
           fst (merge_pull_request client own rep num token) =
             (case client put of Inl e \<Rightarrow> Inl e | Inr r \<Rightarrow> parse_merge_response r num)"
      by (rule merge_pull_request_proceeds [OF num])
  qed
  from 1 2 3 4 5 6 show ?thesis by (intro conjI)
qed

theorem fetch_rules_in_order_witness:
  "fst (merge_pull_request
          (respx_mock (Inr \<lparr>status_code = 404, json = Some (PyDict [(''message'', PyStr ''Not Found'')])\<rparr>)
             (Inl HTTPError))
          ''headout'' ''backend'' 42 ''ghp_test'') =
     Inr \<lparr>status = NOT_FOUND, message = ustr ''PR #42 not found in headout/backend.''\<rparr> \<and>
   fst (merge_pull_request
          (respx_mock (Inr \<lparr>status_code = 500, json = None\<rparr>) (Inl HTTPError))
          ''headout'' ''backend'' 42 ''ghp_test'') =
     Inr \<lparr>status = ERROR, message = ustr ''Failed to fetch PR #42: HTTP 500.''\<rparr> \<and>
   fst (merge_pull_request
          (respx_mock
             (Inr \<lparr>status_code = 200,
                   json = Some (PyDict [(''state'', PyStr ''closed''), (''merged'', PyBool True),
                                        (''mergeable'', PyNone)])\<rparr>)
             (Inl HTTPError))
          ''headout'' ''backend'' 42 ''ghp_test'') =
     Inr \<lparr>status = ALREADY_MERGED, message = ustr ''PR #42 is already merged.''\<rparr> \<and>
   fst (merge_pull_request
          (respx_mock
             (Inr \<lparr>status_code = 200,
                   json = Some (PyDict [(''state'', PyStr ''closed''), (''merged'', PyBool False),
                                        (''mergeable'', PyNone)])\<rparr>)
             (Inl HTTPError))
          ''headout'' ''backend'' 42 ''ghp_test'') =
     Inr \<lparr>status = ERROR, message = ustr ''PR #42 is closed without being merged.''\<rparr> \<and>
   fst (merge_pull_request
          (respx_mock (Inr \<lparr>status_code = 200, json = Some (open_pr_payload (PyBool False))\<rparr>)
             (Inl HTTPError))
          ''headout'' ''backend'' 42 ''ghp_test'') =
     Inr \<lparr>status = CONFLICT, message = conflict_message ''42''\<rparr> \<and>
   fst (merge_pull_request
          (respx_mock (Inr \<lparr>status_code = 200, json = Some (open_pr_payload PyNone)\<rparr>)
             (Inr \<lparr>status_code = 200, json = Some (PyDict [(''sha'', PyStr ''abc''), (''merged'', PyBool True)])\<rparr>))
          ''headout'' ''backend'' 42 ''ghp_test'') =
     Inr \<lparr>status = SUCCESS, message = ustr ''PR #42 merged successfully.''\<rparr>"
proof -
  let ?R = "\<lambda>g p. fst (merge_pull_request (respx_mock (Inr g) p) ''headout'' ''backend'' 42 ''ghp_test'')"
  have T: "status_code g \<noteq> 200 \<or> json g = Some (PyDict d) \<Longrightarrow>
      (status_code g = 404 \<longrightarrow> ?R g p =
          Inr \<lparr>status = NOT_FOUND,
               message = ustr (''PR #'' @ ''42'' @ '' not found in '' @ ''headout'' @ ''/'' @ ''backend'' @ ''.'')\<rparr>) \<and>
      (status_code g \<noteq> 404 \<and> status_code g \<noteq> 200 \<and> py_str_int (status_code g) = Inr code \<longrightarrow> ?R g p =
          Inr \<lparr>status = ERROR,
               message = ustr (''Failed to fetch PR #'' @ ''42'' @ '': HTTP '' @ code @ ''.'')\<rparr>) \<and>
      (status_code g = 200 \<and> py_truthy (dict_get d ''merged'' PyNone) \<longrightarrow> ?R g p =
          Inr \<lparr>status = ALREADY_MERGED,
               message = ustr (''PR #'' @ ''42'' @ '' is already merged.'')\<rparr>) \<and>
      (status_code g = 200 \<and> \<not> py_truthy (dict_get d ''merged'' PyNone) \<and>
       dict_get d ''state'' PyNone = PyStr ''closed'' \<longrightarrow> ?R g p =
          Inr \<lparr>status = ERROR,
               message = ustr (''PR #'' @ ''42'' @ '' is closed without being merged.'')\<rparr>) \<and>
      (status_code g = 200 \<and> \<not> py_truthy (dict_get d ''merged'' PyNone) \<and>
       dict_get d ''state'' PyNone \<noteq> PyStr ''closed'' \<and>
       dict_get d ''mergeable'' PyNone = PyBool False \<longrightarrow> ?R g p =
          Inr \<lparr>status = CONFLICT, message = conflict_message ''42''\<rparr>) \<and>
      (status_code g = 200 \<and> \<not> py_truthy (dict_get d ''merged'' PyNone) \<and>
       dict_get d ''state'' PyNone \<noteq> PyStr ''closed'' \<and>
       dict_get d ''mergeable'' PyNone \<noteq> PyBool False \<longrightarrow>
         ?R g p = (case p of Inl e \<Rightarrow> Inl e | Inr r \<Rightarrow> parse_merge_response r 42))" for g p d code
    using fetch_rules_in_order [where client = "respx_mock (Inr g) p" and response = g and d = d
        and own = "''headout''" and rep = "''backend''" and num = 42 and token = "''ghp_test''"
        and n = "''42''" and code = code,
        OF respx_mock_fetch _ py_str_int_42]
    by (auto simp: respx_mock_def)
  have 1: "?R \<lparr>status_code = 404, json = Some (PyDict [(''message'', PyStr ''Not Found'')])\<rparr> (Inl HTTPError) =
      Inr \<lparr>status = NOT_FOUND, message = ustr ''PR #42 not found in headout/backend.''\<rparr>"
    using T [where g = "\<lparr>status_code = 404, json = Some (PyDict [(''message'', PyStr ''Not Found'')])\<rparr>"
        and p = "Inl HTTPError" and d = "[]"]
    by simp
  have 2: "?R \<lparr>status_code = 500, json = None\<rparr> (Inl HTTPError) =
      Inr \<lparr>status = ERROR, message = ustr ''Failed to fetch PR #42: HTTP 500.''\<rparr>"
    using T [where g = "\<lparr>status_code = 500, json = None\<rparr>"
        and p = "Inl HTTPError" and d = "[]" and code = "''500''"]
    by (simp add: py_str_int_status)
  have 3: "?R \<lparr>status_code = 200,
                   json = Some (PyDict [(''state'', PyStr ''closed''), (''merged'', PyBool True),
                                        (''mergeable'', PyNone)])\<rparr> (Inl HTTPError) =
      Inr \<lparr>status = ALREADY_MERGED, message = ustr ''PR #42 is already merged.''\<rparr>"
    using T [where g = "\<lparr>status_code = 200,
                   json = Some (PyDict [(''state'', PyStr ''closed''), (''merged'', PyBool True),
                                        (''mergeable'', PyNone)])\<rparr>"
        and p = "Inl HTTPError"
        and d = "[(''state'', PyStr ''closed''), (''merged'', PyBool True), (''mergeable'', PyNone)]"]
    by (simp add: dict_get_def)
  have 4: "?R \<lparr>status_code = 200,
                   json = Some (PyDict [(''state'', PyStr ''closed''), (''merged'', PyBool False),
                                        (''mergeable'', PyNone)])\<rparr> (Inl HTTPError) =
      Inr \<lparr>status = ERROR, message = ustr ''PR #42 is closed without being merged.''\<rparr>"
    using T [where g = "\<lparr>status_code = 200,
                   json = Some (PyDict [(''state'', PyStr ''closed''), (''merged'', PyBool False),
                                        (''mergeable'', PyNone)])\<rparr>"
        and p = "Inl HTTPError"
        and d = "[(''state'', PyStr ''closed''), (''merged'', PyBool False), (''mergeable'', PyNone)]"]
    by (simp add: dict_get_def)
  have 5: "?R \<lparr>status_code = 200, json = Some (open_pr_payload (PyBool False))\<rparr> (Inl HTTPError) =
      Inr \<lparr>status = CONFLICT, message = conflict_message ''42''\<rparr>"
    using T [where g = "\<lparr>status_code = 200, json = Some (open_pr_payload (PyBool False))\<rparr>"
        and p = "Inl HTTPError"
        and d = "[(''state'', PyStr ''open''), (''merged'', PyBool False), (''mergeable'', PyBool False)]"]
    by (simp add: open_pr_payload_def dict_get_def)
  have 6: "?R \<lparr>status_code = 200, json = Some (open_pr_payload PyNone)\<rparr>
             (Inr \<lparr>status_code = 200, json = Some (PyDict [(''sha'', PyStr ''abc''), (''merged'', PyBool True)])\<rparr>) =
      Inr \<lparr>status = SUCCESS, message = ustr ''PR #42 merged successfully.''\<rparr>"
    using T [where g = "\<lparr>status_code = 200, json = Some (open_pr_payload PyNone)\<rparr>"
        and p = "Inr \<lparr>status_code = 200, json = Some (PyDict [(''sha'', PyStr ''abc''), (''merged'', PyBool True)])\<rparr>"
        and d = "[(''state'', PyStr ''open''), (''merged'', PyBool False), (''mergeable'', PyNone)]"]
    by (simp add: open_pr_payload_def dict_get_def parse_merge_response_def py_str_int_42)
  from 1 2 3 4 5 6 show ?thesis by blast
qed

theorem fetch_rules_counterexample:
  "fst (merge_pull_request
          (respx_mock (Inr \<lparr>status_code = 200, json = None\<rparr>)
             (Inr \<lparr>status_code = 200, json = Some (PyDict [])\<rparr>))
          ''headout'' ''backend'' 42 ''ghp_test'') = Inl JSONDecodeError \<and>
   \<not> merge_call_issued (snd (merge_pull_request
          (respx_mock (Inr \<lparr>status_code = 200, json = None\<rparr>)
             (Inr \<lparr>status_code = 200, json = Some (PyDict [])\<rparr>))
          ''headout'' ''backend'' 42 ''ghp_test'')) \<and>
   fst (merge_pull_request
          (respx_mock
             (Inr \<lparr>status_code = 200,
                   json = Some (PyDict [(''state'', PyStr ''open''), (''merged'', PyStr ''false''),
                                        (''mergeable'', PyBool True)])\<rparr>)
             (Inr \<lparr>status_code = 200, json = Some (PyDict [])\<rparr>))
          ''headout'' ''backend'' 42 ''ghp_test'') =
     Inr \<lparr>status = ALREADY_MERGED, message = ustr ''PR #42 is already merged.''\<rparr>"
  by (simp add: merge_pull_request_def get_pr_state_def respx_mock_def response_json_def
        py_get_def dict_get_def merge_call_issued_def py_str_int_42 Let_def)

lemma dict_get_truthy: "py_truthy (dict_get d key PyNone) \<Longrightarrow> dict_get d key dflt = dict_get d key PyNone"
  by (auto simp: dict_get_def split: option.splits)

lemma parse_merge_response_not_object:
  assumes "status_code response \<noteq> 200" and "json response = Some v" and "\<And>d. v \<noteq> PyDict d"
  shows "parse_merge_response response num = Inl AttributeError"
  using assms by (cases v) (auto simp: parse_merge_response_def response_json_def py_get_def)

text \<open>
  C4, as amended. Let the pull number have at most 4300 digits, and let the merge call of
  Step 2 return a response whose status is 200, or whose body is not a JSON document (it
  then counts as the empty object), or whose body is a JSON object \<open>d\<close>; let \<open>msg\<close> be
  the \<open>message\<close> field as \<open>str\<close> gives it (the empty string when absent). Then: 200 gives
  \<open>SUCCESS\<close>; 405 gives \<open>CONFLICT\<close> when the lower-cased \<open>msg\<close> contains
  \<open>not mergeable\<close> or \<open>conflict\<close>, and \<open>CHECKS_PENDING\<close> otherwise; 409 gives
  \<open>CONFLICT\<close>; 404 gives \<open>NOT_FOUND\<close>; every other status gives \<open>ERROR\<close>, whose reason is
  \<open>msg\<close> when the \<open>message\<close> field is present and truthy, and \<open>HTTP <code>\<close> otherwise.
\<close>

theorem merge_response_table:
  assumes shape: "status_code response = 200 \<or> (json response = None \<and> d = []) \<or>
                  json response = Some (PyDict d)"
    and num: "py_str_int num = Inr n"
  shows
    "(status_code response = 200 \<longrightarrow>
        parse_merge_response response num =
          Inr \<lparr>status = SUCCESS, message = ustr (''PR #'' @ n @ '' merged successfully.'')\<rparr>) \<and>
     (status_code response \<noteq> 200 \<and> py_str (dict_get d ''message'' (PyStr [])) = Inr msg \<longrightarrow>
        (status_code response = 405 \<and>
         (py_in ''not mergeable'' (py_lower msg) \<or> py_in ''conflict'' (py_lower msg)) \<longrightarrow>
           parse_merge_response response num = Inr \<lparr>status = CONFLICT, message = conflict_message n\<rparr>) \<and>
        (status_code response = 405 \<and>
         \<not> py_in ''not mergeable'' (py_lower msg) \<and> \<not> py_in ''conflict'' (py_lower msg) \<longrightarrow>
           parse_merge_response response num =
             Inr \<lparr>status = CHECKS_PENDING,
                  message = ustr (''Cannot merge PR #'' @ n @ '' '')
                    @ [em_dash] @ ustr '' status checks have not passed.''\<rparr>) \<and>
        (status_code response = 409 \<longrightarrow>
           parse_merge_response response num = Inr \<lparr>status = CONFLICT, message = conflict_message n\<rparr>) \<and>
        (status_code response = 404 \<longrightarrow>
           parse_merge_response response num =
             Inr \<lparr>status = NOT_FOUND, message = ustr (''PR #'' @ n @ '' not found.'')\<rparr>) \<and>
        (status_code response \<noteq> 405 \<and> status_code response \<noteq> 409 \<and> status_code response \<noteq> 404 \<and>
         py_truthy (dict_get d ''message'' PyNone) \<longrightarrow>
           parse_merge_response response num =
             Inr \<lparr>status = ERROR, message = ustr (''Failed to merge PR #'' @ n @ '': '' @ msg)\<rparr>) \<and>
        (status_code response \<noteq> 405 \<and> status_code response \<noteq> 409 \<and> status_code response \<noteq> 404 \<and>
         \<not> py_truthy (dict_get d ''message'' PyNone) \<and>
         py_str_int (status_code response) = Inr code \<longrightarrow>
           parse_merge_response response num =
             Inr \<lparr>status = ERROR, message = ustr (''Failed to merge PR #'' @ n @ '': HTTP '' @ code)\<rparr>))"
proof (cases "status_code response = 200")
  case True
  then show ?thesis using num by (simp add: parse_merge_response_def)
next
  case False
  with shape have b: "(case response_json response of Inl e \<Rightarrow> PyDict [] | Inr v \<Rightarrow> v) = PyDict d"
    by (auto simp: response_json_def)
  have "py_str (dict_get d ''message'' (PyStr [])) = Inr msg \<longrightarrow>
        (status_code response = 405 \<and>
         (py_in ''not mergeable'' (py_lower msg) \<or> py_in ''conflict'' (py_lower msg)) \<longrightarrow>
           parse_merge_response response num = Inr \<lparr>status = CONFLICT, message = conflict_message n\<rparr>) \<and>
        (status_code response = 405 \<and>
         \<not> py_in ''not mergeable'' (py_lower msg) \<and> \<not> py_in ''conflict'' (py_lower msg) \<longrightarrow>
           parse_merge_response response num =
             Inr \<lparr>status = CHECKS_PENDING,
                  message = ustr (''Cannot merge PR #'' @ n @ '' '')
                    @ [em_dash] @ ustr '' status checks have not passed.''\<rparr>) \<and>
        (status_code response = 409 \<longrightarrow>
           parse_merge_response response num = Inr \<lparr>status = CONFLICT, message = conflict_message n\<rparr>) \<and>
        (status_code response = 404 \<longrightarrow>
           parse_merge_response response num =
             Inr \<lparr>status = NOT_FOUND, message = ustr (''PR #'' @ n @ '' not found.'')\<rparr>) \<and>
        (status_code response \<noteq> 405 \<and> status_code response \<noteq> 409 \<and> status_code response \<noteq> 404 \<and>
         py_truthy (dict_get d ''message'' PyNone) \<longrightarrow>
           parse_merge_response response num =
             Inr \<lparr>status = ERROR, message = ustr (''Failed to merge PR #'' @ n @ '': '' @ msg)\<rparr>) \<and>
        (status_code response \<noteq> 405 \<and> status_code response \<noteq> 409 \<and> status_code response \<noteq> 404 \<and>
         \<not> py_truthy (dict_get d ''message'' PyNone) \<and>
         py_str_int (status_code response) = Inr code \<longrightarrow>
           parse_merge_response response num =
             Inr \<lparr>status = ERROR, message = ustr (''Failed to merge PR #'' @ n @ '': HTTP '' @ code)\<rparr>)"
  proof
    assume t: "py_str (dict_get d ''message'' (PyStr [])) = Inr msg"
    have t': "py_str (dict_get d ''message'' PyNone) = Inr msg"
      if "py_truthy (dict_get d ''message'' PyNone)"
      using dict_get_truthy [OF that, of "PyStr []"] t by simp
    have h: "py_str (PyStr (''HTTP '' @ code)) = Inr (''HTTP '' @ code)"
      by (simp add: py_str_def)
    show "(status_code response = 405 \<and>
         (py_in ''not mergeable'' (py_lower msg) \<or> py_in ''conflict'' (py_lower msg)) \<longrightarrow>
           parse_merge_response response num = Inr \<lparr>status = CONFLICT, message = conflict_message n\<rparr>) \<and>
        (status_code response = 405 \<and>
         \<not> py_in ''not mergeable'' (py_lower msg) \<and> \<not> py_in ''conflict'' (py_lower msg) \<longrightarrow>
           parse_merge_response response num =
             Inr \<lparr>status = CHECKS_PENDING,
                  message = ustr (''Cannot merge PR #'' @ n @ '' '')
                    @ [em_dash] @ ustr '' status checks have not passed.''\<rparr>) \<and>
        (status_code response = 409 \<longrightarrow>
           parse_merge_response response num = Inr \<lparr>status = CONFLICT, message = conflict_message n\<rparr>) \<and>
        (status_code response = 404 \<longrightarrow>
           parse_merge_response response num =
             Inr \<lparr>status = NOT_FOUND, message = ustr (''PR #'' @ n @ '' not found.'')\<rparr>) \<and>
        (status_code response \<noteq> 405 \<and> status_code response \<noteq> 409 \<and> status_code response \<noteq> 404 \<and>
         py_truthy (dict_get d ''message'' PyNone) \<longrightarrow>
           parse_merge_response response num =
             Inr \<lparr>status = ERROR, message = ustr (''Failed to merge PR #'' @ n @ '': '' @ msg)\<rparr>) \<and>
        (status_code response \<noteq> 405 \<and> status_code response \<noteq> 409 \<and> status_code response \<noteq> 404 \<and>
         \<not> py_truthy (dict_get d ''message'' PyNone) \<and>
         py_str_int (status_code response) = Inr code \<longrightarrow>
           parse_merge_response response num =
             Inr \<lparr>status = ERROR, message = ustr (''Failed to merge PR #'' @ n @ '': HTTP '' @ code)\<rparr>)"
      using False b t t' h num
      by (simp add: parse_merge_response_def py_get_def Let_def)
  qed
  with False show ?thesis by simp
qed

theorem merge_response_table_witness:
  "parse_merge_response \<lparr>status_code = 200, json = Some (PyDict [(''sha'', PyStr ''abc''), (''merged'', PyBool True)])\<rparr> 42 =
     Inr \<lparr>status = SUCCESS, message = ustr ''PR #42 merged successfully.''\<rparr> \<and>
   parse_merge_response \<lparr>status_code = 405, json = Some (PyDict [(''message'', PyStr ''Pull Request is not mergeable'')])\<rparr> 42 =
     Inr \<lparr>status = CONFLICT, message = conflict_message ''42''\<rparr> \<and>
   parse_merge_response \<lparr>status_code = 405, json = Some (PyDict [(''message'', PyStr ''Required status checks failed'')])\<rparr> 42 =
     Inr \<lparr>status = CHECKS_PENDING,
          message = ustr ''Cannot merge PR #42 '' @ [em_dash] @ ustr '' status checks have not passed.''\<rparr> \<and>
   parse_merge_response \<lparr>status_code = 409, json = Some (PyDict [(''message'', PyStr ''Head branch was modified'')])\<rparr> 42 =
     Inr \<lparr>status = CONFLICT, message = conflict_message ''42''\<rparr> \<and>
   parse_merge_response \<lparr>status_code = 404, json = Some (PyDict [(''message'', PyStr ''Not Found'')])\<rparr> 42 =
     Inr \<lparr>status = NOT_FOUND, message = ustr ''PR #42 not found.''\<rparr> \<and>
   parse_merge_response \<lparr>status_code = 500, json = Some (PyDict [(''message'', PyStr ''Internal Server Error'')])\<rparr> 42 =
     Inr \<lparr>status = ERROR, message = ustr ''Failed to merge PR #42: Internal Server Error''\<rparr> \<and>
   parse_merge_response \<lparr>status_code = 502, json = None\<rparr> 42 =
     Inr \<lparr>status = ERROR, message = ustr ''Failed to merge PR #42: HTTP 502''\<rparr>"
proof -
  note ev = py_str_int_status dict_get_def py_str_def py_lower_def py_lower_char_def
    char_of_def bit_0
  note T = merge_response_table [where num = 42 and n = "''42''", OF _ py_str_int_42]
  have 1: "parse_merge_response \<lparr>status_code = 200, json = Some (PyDict [(''sha'', PyStr ''abc''), (''merged'', PyBool True)])\<rparr> 42 =
     Inr \<lparr>status = SUCCESS, message = ustr ''PR #42 merged successfully.''\<rparr>"
    using T [where response = "\<lparr>status_code = 200, json = Some (PyDict [(''sha'', PyStr ''abc''), (''merged'', PyBool True)])\<rparr>"
        and d = "[(''sha'', PyStr ''abc''), (''merged'', PyBool True)]"]
    by (simp add: ev)
  have 2: "parse_merge_response \<lparr>status_code = 405, json = Some (PyDict [(''message'', PyStr ''Pull Request is not mergeable'')])\<rparr> 42 =
     Inr \<lparr>status = CONFLICT, message = conflict_message ''42''\<rparr>"
    using T [where response = "\<lparr>status_code = 405, json = Some (PyDict [(''message'', PyStr ''Pull Request is not mergeable'')])\<rparr>"
        and d = "[(''message'', PyStr ''Pull Request is not mergeable'')]"
        and msg = "''Pull Request is not mergeable''"]
    by (simp add: ev)
  have 3: "parse_merge_response \<lparr>status_code = 405, json = Some (PyDict [(''message'', PyStr ''Required status checks failed'')])\<rparr> 42 =
     Inr \<lparr>status = CHECKS_PENDING,
          message = ustr ''Cannot merge PR #42 '' @ [em_dash] @ ustr '' status checks have not passed.''\<rparr>"
    using T [where response = "\<lparr>status_code = 405, json = Some (PyDict [(''message'', PyStr ''Required status checks failed'')])\<rparr>"
        and d = "[(''message'', PyStr ''Required status checks failed'')]"
        and msg = "''Required status checks failed''"]
    by (simp add: ev)
  have 4: "parse_merge_response \<lparr>status_code = 409, json = Some (PyDict [(''message'', PyStr ''Head branch was modified'')])\<rparr> 42 =
     Inr \<lparr>status = CONFLICT, message = conflict_message ''42''\<rparr>"
    using T [where response = "\<lparr>status_code = 409, json = Some (PyDict [(''message'', PyStr ''Head branch was modified'')])\<rparr>"
        and d = "[(''message'', PyStr ''Head branch was modified'')]"
        and msg = "''Head branch was modified''"]
    by (simp add: ev)
  have 5: "parse_merge_response \<lparr>status_code = 404, json = Some (PyDict [(''message'', PyStr ''Not Found'')])\<rparr> 42 =
     Inr \<lparr>status = NOT_FOUND, message = ustr ''PR #42 not found.''\<rparr>"
    using T [where response = "\<lparr>status_code = 404, json = Some (PyDict [(''message'', PyStr ''Not Found'')])\<rparr>"
        and d = "[(''message'', PyStr ''Not Found'')]"
        and msg = "''Not Found''"]
    by (simp add: ev)
  have 6: "parse_merge_response \<lparr>status_code = 500, json = Some (PyDict [(''message'', PyStr ''Internal Server Error'')])\<rparr> 42 =
     Inr \<lparr>status = ERROR, message = ustr ''Failed to merge PR #42: Internal Server Error''\<rparr>"
    using T [where response = "\<lparr>status_code = 500, json = Some (PyDict [(''message'', PyStr ''Internal Server Error'')])\<rparr>"
        and d = "[(''message'', PyStr ''Internal Server Error'')]"
        and msg = "''Internal Server Error''"]
    by (simp add: ev)
  have 7: "parse_merge_response \<lparr>status_code = 502, json = None\<rparr> 42 =
     Inr \<lparr>status = ERROR, message = ustr ''Failed to merge PR #42: HTTP 502''\<rparr>"
    using T [where response = "\<lparr>status_code = 502, json = None\<rparr>" and d = "[]"
        and msg = "[]" and code = "''502''"]
    by (simp add: ev)
  from 1 2 3 4 5 6 7 show ?thesis by blast
qed

theorem merge_response_table_counterexample:
  "parse_merge_response \<lparr>status_code = 409, json = Some (PyList [])\<rparr> 42 = Inl AttributeError \<and>
   parse_merge_response \<lparr>status_code = 500, json = Some (PyDict [(''message'', PyStr [])])\<rparr> 42 =
     Inr \<lparr>status = ERROR, message = ustr ''Failed to merge PR #42: HTTP 500''\<rparr>"
  by (simp add: parse_merge_response_def response_json_def py_get_def dict_get_def py_str_def
        py_lower_def py_str_int_42 py_str_int_status)

text \<open>
  C9. Let the pull number and the status code have at most 4300 digits each. A merge-call
  response that is not a 200 and whose body is not a JSON document does not make
  \<open>_parse_merge_response\<close> raise: the body counts as the empty dictionary. A 405 is then
  \<open>CHECKS_PENDING\<close>, a 409 \<open>CONFLICT\<close>, a 404 \<open>NOT_FOUND\<close>, and every other status
  \<open>ERROR\<close> with the reason \<open>HTTP <code>\<close>.
\<close>

theorem parse_merge_response_unparseable:
  assumes "status_code response \<noteq> 200" and "json response = None"
    and "py_str_int num = Inr n" and "py_str_int (status_code response) = Inr code"
  shows "(\<exists>res. parse_merge_response response num = Inr res) \<and>
         (status_code response = 405 \<longrightarrow>
            parse_merge_response response num =
              Inr \<lparr>status = CHECKS_PENDING,
                   message = ustr (''Cannot merge PR #'' @ n @ '' '')
                     @ [em_dash] @ ustr '' status checks have not passed.''\<rparr>) \<and>
         (status_code response = 409 \<longrightarrow>
            parse_merge_response response num = Inr \<lparr>status = CONFLICT, message = conflict_message n\<rparr>) \<and>
         (status_code response = 404 \<longrightarrow>
            parse_merge_response response num =
              Inr \<lparr>status = NOT_FOUND, message = ustr (''PR #'' @ n @ '' not found.'')\<rparr>) \<and>
         (status_code response \<noteq> 405 \<and> status_code response \<noteq> 409 \<and> status_code response \<noteq> 404 \<longrightarrow>
            parse_merge_response response num =
              Inr \<lparr>status = ERROR,
                   message = ustr (''Failed to merge PR #'' @ n @ '': HTTP '' @ code)\<rparr>)"
  using assms
  by (simp add: parse_merge_response_def response_json_def py_get_def dict_get_def py_str_def py_lower_def)

theorem parse_merge_response_unparseable_witness:
  "parse_merge_response \<lparr>status_code = 405, json = None\<rparr> 42 =
     Inr \<lparr>status = CHECKS_PENDING,
          message = ustr ''Cannot merge PR #42 '' @ [em_dash] @ ustr '' status checks have not passed.''\<rparr> \<and>
   parse_merge_response \<lparr>status_code = 502, json = None\<rparr> 42 =
     Inr \<lparr>status = ERROR, message = ustr ''Failed to merge PR #42: HTTP 502''\<rparr>"
proof -
  have a: "status_code \<lparr>status_code = 405, json = None\<rparr> \<noteq> 200"
    and b: "json \<lparr>status_code = 405, json = None\<rparr> = None"
    and c: "status_code \<lparr>status_code = 502, json = None\<rparr> \<noteq> 200"
    and d: "json \<lparr>status_code = 502, json = None\<rparr> = None"
    and e: "py_str_int (status_code \<lparr>status_code = 405, json = None\<rparr>) = Inr ''405''"
    and f: "py_str_int (status_code \<lparr>status_code = 502, json = None\<rparr>) = Inr ''502''"
    by (simp_all add: py_str_int_status)
  from parse_merge_response_unparseable [OF a b py_str_int_42 e]
  have 1: "parse_merge_response \<lparr>status_code = 405, json = None\<rparr> 42 =
     Inr \<lparr>status = CHECKS_PENDING,
          message = ustr ''Cannot merge PR #42 '' @ [em_dash] @ ustr '' status checks have not passed.''\<rparr>"
    by simp
  from parse_merge_response_unparseable [OF c d py_str_int_42 f]
  have 2: "parse_merge_response \<lparr>status_code = 502, json = None\<rparr> 42 =
     Inr \<lparr>status = ERROR, message = ustr ''Failed to merge PR #42: HTTP 502''\<rparr>"
    by simp
  from 1 2 show ?thesis by blast
qed

lemma parse_merge_response_long_number:
  assumes "py_str_int num = Inl e" and "status_code response = 200 \<or> json response = None"
    and "py_str_int (status_code response) = Inr code"
  shows "parse_merge_response response num = Inl e"
  using assms
  by (auto simp: parse_merge_response_def response_json_def py_get_def dict_get_def py_str_def
        py_lower_def)

text \<open>
  C1. The docstring of \<open>merge_pull_request\<close> promises that it never raises. It raises when
  the transport fails on either call, when the fetch returns a 200 whose body is not a JSON
  object, and when the merge call returns a status other than 200 with a JSON body that is
  not an object.
\<close>

theorem merge_pull_request_raises:
  "fst (merge_pull_request (respx_mock (Inl HTTPError) (Inl HTTPError))
          ''headout'' ''backend'' 42 ''ghp_test'') = Inl HTTPError \<and>
   fst (merge_pull_request
          (respx_mock (Inr \<lparr>status_code = 200, json = None\<rparr>) (Inl HTTPError))
          ''headout'' ''backend'' 42 ''ghp_test'') = Inl JSONDecodeError \<and>
   fst (merge_pull_request
          (respx_mock (Inr \<lparr>status_code = 200, json = Some (PyList [])\<rparr>) (Inl HTTPError))
          ''headout'' ''backend'' 42 ''ghp_test'') = Inl AttributeError \<and>
   fst (merge_pull_request
          (respx_mock (Inr \<lparr>status_code = 200, json = Some (open_pr_payload (PyBool True))\<rparr>) (Inl HTTPError))
          ''headout'' ''backend'' 42 ''ghp_test'') = Inl HTTPError \<and>
   fst (merge_pull_request
          (respx_mock (Inr \<lparr>status_code = 200, json = Some (open_pr_payload (PyBool True))\<rparr>)
             (Inr \<lparr>status_code = 500, json = Some (PyStr ''Internal Server Error'')\<rparr>))
          ''headout'' ''backend'' 42 ''ghp_test'') = Inl AttributeError"
  by (simp add: merge_pull_request_def get_pr_state_def respx_mock_def response_json_def
        parse_merge_response_def py_get_def dict_get_def open_pr_payload_def py_str_int_42 Let_def)

section \<open>Properties of the regular-expression search\<close>

lemma backtrack_Some:
  "backtrack f n = Some r \<Longrightarrow>
     \<exists>k. 0 < k \<and> k \<le> n \<and> f k = Some r \<and> (\<forall>j. k < j \<and> j \<le> n \<longrightarrow> f j = None)"
proof (induction n)
  case 0
  then show ?case by simp
next
  case (Suc n)
  show ?case
  proof (cases "f (Suc n)")
    case None
    with Suc.prems have "backtrack f n = Some r" by simp
    with Suc.IH obtain k where k: "0 < k" "k \<le> n" "f k = Some r" "\<forall>j. k < j \<and> j \<le> n \<longrightarrow> f j = None"
      by blast
    have "\<forall>j. k < j \<and> j \<le> Suc n \<longrightarrow> f j = None"
      using k(4) None by (auto simp: le_Suc_eq)
    with k show ?thesis by (intro exI [of _ k]) simp
  next
    case (Some r')
    with Suc.prems have "f (Suc n) = Some r" by simp
    then show ?thesis by (intro exI [of _ "Suc n"]) auto
  qed
qed

lemma backtrack_None: "backtrack f n = None \<longleftrightarrow> (\<forall>k. 0 < k \<and> k \<le> n \<longrightarrow> f k = None)"
proof (induction n)
  case 0
  then show ?case by simp
next
  case (Suc n)
  show ?case
  proof (cases "f (Suc n)")
    case None
    with Suc.IH show ?thesis by (auto simp: le_Suc_eq)
  next
    case (Some r)
    then show ?thesis by auto
  qed
qed

lemma backtrack_top:
  assumes "\<And>k. 0 < k \<Longrightarrow> k < n \<Longrightarrow> f k = None"
  shows "backtrack f n = (if n = 0 then None else f n)"
proof (cases "backtrack f n")
  case None
  then show ?thesis by (auto simp: backtrack_None)
next
  case (Some r)
  from backtrack_Some [OF Some] obtain k where k: "0 < k" "k \<le> n" "f k = Some r" by blast
  with assms [of k] have "k = n" by (cases "k < n") auto
  with k Some show ?thesis by auto
qed

lemma take_takeWhile_all: "k \<le> length (takeWhile P s) \<Longrightarrow> list_all P (take k s)"
proof (induction s arbitrary: k)
  case Nil
  then show ?case by simp
next
  case (Cons x xs)
  then show ?case by (cases k) (auto split: if_splits)
qed

lemma last_take_nth: "0 < k \<Longrightarrow> k \<le> length s \<Longrightarrow> last (take k s) = s ! (k - 1)"
proof -
  assume k: "0 < k" "k \<le> length s"
  then have "take k s \<noteq> []" by auto
  then have "last (take k s) = take k s ! (length (take k s) - 1)" by (rule last_conv_nth)
  also have "\<dots> = s ! (k - 1)" using k by simp
  finally show ?thesis .
qed

lemma length_takeWhile_prefix: "list_all P u \<Longrightarrow> length u \<le> length (takeWhile P (u @ t))"
  by (induction u) auto

theorem re_match_sound:
  "re_match ic its prev s = Some (gs, rest) \<Longrightarrow> \<exists>w. s = w @ rest \<and> re_sem ic its prev w rest gs"
proof (induction its arbitrary: prev s gs)
  case Nil
  then show ?case by simp
next
  case (Cons it its)
  show ?case
  proof (cases it)
    case (Chr c)
    with Cons.prems obtain x xs where s: "s = x # xs" and e: "chr_eq ic c x"
      and m: "re_match ic its (Some x) xs = Some (gs, rest)"
      by (auto split: list.splits if_splits)
    from Cons.IH [OF m] obtain w' where "xs = w' @ rest" "re_sem ic its (Some x) w' rest gs" by blast
    with s e Chr show ?thesis by (intro exI [of _ "x # w'"]) simp
  next
    case Bnd
    with Cons.prems have b: "word_boundary prev s" and m: "re_match ic its prev s = Some (gs, rest)"
      by (auto split: if_splits)
    from Cons.IH [OF m] obtain w where "s = w @ rest" "re_sem ic its prev w rest gs" by blast
    with b Bnd show ?thesis by (intro exI [of _ w]) simp
  next
    case (Plus cls)
    with Cons.prems have
      "backtrack (\<lambda>k. re_match ic its (Some (s ! (k - 1))) (drop k s)) (length (takeWhile cls s)) = Some (gs, rest)"
      by simp
    from backtrack_Some [OF this] obtain k where k: "0 < k" "k \<le> length (takeWhile cls s)"
      and m: "re_match ic its (Some (s ! (k - 1))) (drop k s) = Some (gs, rest)" by blast
    from Cons.IH [OF m] obtain w' where w': "drop k s = w' @ rest"
      "re_sem ic its (Some (s ! (k - 1))) w' rest gs" by blast
    have ks: "k \<le> length s" using k(2) length_takeWhile_le [of cls s] by simp
    have ne: "take k s \<noteq> []" using k(1) ks by auto
    have la: "last (take k s) = s ! (k - 1)"
      using k(1) ks by (rule last_take_nth)
    have eq: "s = (take k s @ w') @ rest" using w'(1) append_take_drop_id [of k s] by simp
    have "\<exists>u v. take k s @ w' = u @ v \<and> u \<noteq> [] \<and> list_all cls u \<and>
             re_sem ic its (Some (last u)) v rest gs"
      using ne la w'(2) take_takeWhile_all [OF k(2)]
      by (intro exI [of _ "take k s"] exI [of _ w']) simp
    then have "re_sem ic (it # its) prev (take k s @ w') rest gs" using Plus by simp
    with eq show ?thesis by blast
  next
    case (Cap cls)
    with Cons.prems have
      "backtrack (\<lambda>k. case re_match ic its (Some (s ! (k - 1))) (drop k s) of
                   None \<Rightarrow> None
                 | Some (gs, rest) \<Rightarrow> Some (take k s # gs, rest)) (length (takeWhile cls s)) = Some (gs, rest)"
      by simp
    from backtrack_Some [OF this] obtain k gs' where k: "0 < k" "k \<le> length (takeWhile cls s)"
      and m: "re_match ic its (Some (s ! (k - 1))) (drop k s) = Some (gs', rest)"
      and g: "gs = take k s # gs'"
      by (auto split: option.splits)
    from Cons.IH [OF m] obtain w' where w': "drop k s = w' @ rest"
      "re_sem ic its (Some (s ! (k - 1))) w' rest gs'" by blast
    have ks: "k \<le> length s" using k(2) length_takeWhile_le [of cls s] by simp
    have ne: "take k s \<noteq> []" using k(1) ks by auto
    have la: "last (take k s) = s ! (k - 1)"
      using k(1) ks by (rule last_take_nth)
    have eq: "s = (take k s @ w') @ rest" using w'(1) append_take_drop_id [of k s] by simp
    have "\<exists>u v gs'. take k s @ w' = u @ v \<and> gs = u # gs' \<and> u \<noteq> [] \<and> list_all cls u \<and>
             re_sem ic its (Some (last u)) v rest gs'"
      using ne la w'(2) g take_takeWhile_all [OF k(2)]
      by (intro exI [of _ "take k s"] exI [of _ w'] exI [of _ gs']) simp
    then have "re_sem ic (it # its) prev (take k s @ w') rest gs" using Cap by simp
    with eq show ?thesis by blast
  qed
qed

theorem re_match_complete:
  "re_sem ic its prev w rest gs \<Longrightarrow> re_match ic its prev (w @ rest) \<noteq> None"
proof (induction its arbitrary: prev w gs)
  case Nil
  then show ?case by simp
next
  case (Cons it its)
  show ?case
  proof (cases it)
    case (Chr c)
    with Cons.prems obtain x w' where "w = x # w'" "chr_eq ic c x" "re_sem ic its (Some x) w' rest gs"
      by auto
    with Cons.IH [of "Some x" w' gs] Chr show ?thesis by simp
  next
    case Bnd
    with Cons.prems Cons.IH [of prev w gs] show ?thesis by simp
  next
    case (Plus cls)
    with Cons.prems obtain u w' where u: "w = u @ w'" "u \<noteq> []" "list_all cls u"
      and r: "re_sem ic its (Some (last u)) w' rest gs" by auto
    let ?s = "w @ rest"
    let ?f = "\<lambda>k. re_match ic its (Some (?s ! (k - 1))) (drop k ?s)"
    have le: "length u \<le> length (takeWhile cls ?s)"
      using length_takeWhile_prefix [OF u(3), of "w' @ rest"] u(1) by simp
    have "?s ! (length u - 1) = last u" using u(1,2) by (simp add: nth_append last_conv_nth)
    moreover have "drop (length u) ?s = w' @ rest" using u(1) by simp
    ultimately have "?f (length u) \<noteq> None" using Cons.IH [OF r] by simp
    moreover have "0 < length u" using u(2) by simp
    ultimately have "backtrack ?f (length (takeWhile cls ?s)) \<noteq> None"
      using le by (auto simp: backtrack_None)
    with Plus show ?thesis by simp
  next
    case (Cap cls)
    with Cons.prems obtain u w' gs' where u: "w = u @ w'" "u \<noteq> []" "list_all cls u"
      and r: "re_sem ic its (Some (last u)) w' rest gs'" by auto
    let ?s = "w @ rest"
    let ?f = "\<lambda>k. case re_match ic its (Some (?s ! (k - 1))) (drop k ?s) of
                   None \<Rightarrow> None
                 | Some (gs, rest) \<Rightarrow> Some (take k ?s # gs, rest)"
    have le: "length u \<le> length (takeWhile cls ?s)"
      using length_takeWhile_prefix [OF u(3), of "w' @ rest"] u(1) by simp
    have "?s ! (length u - 1) = last u" using u(1,2) by (simp add: nth_append last_conv_nth)
    moreover have "drop (length u) ?s = w' @ rest" using u(1) by simp
    ultimately have "?f (length u) \<noteq> None" using Cons.IH [OF r] by (auto split: option.splits)
    moreover have "0 < length u" using u(2) by simp
    ultimately have "backtrack ?f (length (takeWhile cls ?s)) \<noteq> None"
      using le by (auto simp: backtrack_None)
    with Cap show ?thesis by simp
  qed
qed
lemma re_alts_Some:
  "re_alts ic alts prev s = Some r \<Longrightarrow> \<exists>alt\<in>set alts. re_match ic alt prev s = Some r"
  by (induction alts) (auto split: option.splits)

lemma re_alts_None:
  "re_alts ic alts prev s = None \<longleftrightarrow> (\<forall>alt\<in>set alts. re_match ic alt prev s = None)"
  by (induction alts) (auto split: option.splits)

lemma char_before_Cons: "char_before prev (x # pre) = char_before (Some x) pre"
  by (simp add: char_before_def)

lemma re_search_from_None:
  "re_search_from p prev s = None \<longleftrightarrow>
     (\<forall>pre t. s = pre @ t \<longrightarrow> re_alts (ignorecase p) (alternatives p) (char_before prev pre) t = None)"
proof (induction s arbitrary: prev)
  case Nil
  then show ?case by (auto simp: char_before_def split: option.splits)
next
  case (Cons x xs)
  let ?A = "\<lambda>q t. re_alts (ignorecase p) (alternatives p) q t"
  have "(\<forall>pre t. x # xs = pre @ t \<longrightarrow> ?A (char_before prev pre) t = None) \<longleftrightarrow>
        ?A prev (x # xs) = None \<and> (\<forall>pre t. xs = pre @ t \<longrightarrow> ?A (char_before (Some x) pre) t = None)"
    (is "?L \<longleftrightarrow> ?R")
  proof
    assume L: ?L
    have "?A (char_before prev []) (x # xs) = None" using L by blast
    then have 1: "?A prev (x # xs) = None" by (simp add: char_before_def)
    have 2: "?A (char_before (Some x) pre) t = None" if "xs = pre @ t" for pre t
    proof -
      from that have "x # xs = (x # pre) @ t" by simp
      with L have "?A (char_before prev (x # pre)) t = None" by blast
      then show ?thesis by (simp add: char_before_Cons)
    qed
    from 1 2 show ?R by blast
  next
    assume R: ?R
    show ?L
    proof (intro allI impI)
      fix pre t
      assume eq: "x # xs = pre @ t"
      show "?A (char_before prev pre) t = None"
      proof (cases pre)
        case Nil
        with eq R show ?thesis by (simp add: char_before_def)
      next
        case (Cons y pre')
        with eq have "y = x" "xs = pre' @ t" by simp_all
        with R Cons show ?thesis by (simp add: char_before_Cons)
      qed
    qed
  qed
  with Cons.IH [of "Some x"] show ?case by (auto split: option.splits)
qed

lemma re_search_from_Some:
  "re_search_from p prev s = Some m \<Longrightarrow>
     \<exists>pre t gs rest. s = pre @ t \<and>
        re_alts (ignorecase p) (alternatives p) (char_before prev pre) t = Some (gs, rest) \<and>
        m = \<lparr>group0 = take (length t - length rest) t, groups = gs\<rparr> \<and>
        (\<forall>pre' t'. s = pre' @ t' \<and> length pre' < length pre \<longrightarrow>
           re_alts (ignorecase p) (alternatives p) (char_before prev pre') t' = None)"
proof (induction s arbitrary: prev)
  case Nil
  then obtain gs rest where "re_alts (ignorecase p) (alternatives p) prev [] = Some (gs, rest)"
    "m = \<lparr>group0 = [], groups = gs\<rparr>"
    by (auto split: option.splits)
  then show ?case
    by (intro exI [of _ "[]"] exI [of _ gs] exI [of _ rest]) (simp add: char_before_def)
next
  case (Cons x xs)
  let ?A = "\<lambda>q t. re_alts (ignorecase p) (alternatives p) q t"
  show ?case
  proof (cases "?A prev (x # xs)")
    case (Some r)
    obtain gs rest where r: "r = (gs, rest)" by (cases r)
    with Some Cons.prems have "m = \<lparr>group0 = take (length (x # xs) - length rest) (x # xs), groups = gs\<rparr>"
      by simp
    with Some r show ?thesis
      by (intro exI [of _ "[]"] exI [of _ "x # xs"] exI [of _ gs] exI [of _ rest])
         (simp add: char_before_def)
  next
    case None
    with Cons.prems have "re_search_from p (Some x) xs = Some m" by simp
    from Cons.IH [OF this] obtain pre t gs rest where
      eq: "xs = pre @ t" and a: "?A (char_before (Some x) pre) t = Some (gs, rest)"
      and m: "m = \<lparr>group0 = take (length t - length rest) t, groups = gs\<rparr>"
      and first: "\<forall>pre' t'. xs = pre' @ t' \<and> length pre' < length pre \<longrightarrow>
             ?A (char_before (Some x) pre') t' = None"
      by blast
    have first': "?A (char_before prev pre') t' = None"
      if "x # xs = pre' @ t'" "length pre' < length (x # pre)" for pre' t'
    proof (cases pre')
      case Nil
      with that None show ?thesis by (simp add: char_before_def)
    next
      case (Cons y q)
      with that have "xs = q @ t'" "length q < length pre" by simp_all
      with first have "?A (char_before (Some x) q) t' = None" by blast
      with Cons that show ?thesis by (simp add: char_before_Cons)
    qed
    show ?thesis
      apply (rule exI [of _ "x # pre"])
      apply (rule exI [of _ t])
      apply (rule exI [of _ gs])
      apply (rule exI [of _ rest])
      using eq a m first' by (simp add: char_before_Cons)
  qed
qed

lemma re_alts_matches_iff:
  "re_alts ic alts prev t \<noteq> None \<longleftrightarrow>
     (\<exists>alt\<in>set alts. \<exists>w rest gs. t = w @ rest \<and> re_sem ic alt prev w rest gs)"
proof
  assume "re_alts ic alts prev t \<noteq> None"
  then obtain gs rest where "re_alts ic alts prev t = Some (gs, rest)" by auto
  from re_alts_Some [OF this] obtain alt where "alt \<in> set alts" "re_match ic alt prev t = Some (gs, rest)"
    by blast
  with re_match_sound [of ic alt prev t gs rest] show
    "\<exists>alt\<in>set alts. \<exists>w rest gs. t = w @ rest \<and> re_sem ic alt prev w rest gs" by blast
next
  assume "\<exists>alt\<in>set alts. \<exists>w rest gs. t = w @ rest \<and> re_sem ic alt prev w rest gs"
  then obtain alt w rest gs where "alt \<in> set alts" "t = w @ rest" "re_sem ic alt prev w rest gs" by blast
  with re_match_complete [of ic alt prev w rest gs] show "re_alts ic alts prev t \<noteq> None"
    by (auto simp: re_alts_None)
qed

theorem re_search_None_iff:
  "re_search p text = None \<longleftrightarrow> \<not> (\<exists>pre w post. text = pre @ w @ post \<and> re_occurs p pre w post)"
proof -
  have "re_search p text \<noteq> None \<longleftrightarrow>
          (\<exists>pre t. text = pre @ t \<and> re_alts (ignorecase p) (alternatives p) (char_before None pre) t \<noteq> None)"
    by (simp add: re_search_def re_search_from_None)
  also have "\<dots> \<longleftrightarrow> (\<exists>pre t. text = pre @ t \<and>
          (\<exists>alt\<in>set (alternatives p). \<exists>w rest gs. t = w @ rest \<and>
             re_sem (ignorecase p) alt (char_before None pre) w rest gs))"
    by (simp only: re_alts_matches_iff)
  also have "\<dots> \<longleftrightarrow> (\<exists>pre w post. text = pre @ w @ post \<and> re_occurs p pre w post)"
    unfolding re_occurs_def by blast
  finally show ?thesis by blast
qed

theorem re_search_Some:
  assumes "re_search p text = Some m"
  shows "\<exists>pre post. text = pre @ group0 m @ post \<and>
           (\<exists>alt\<in>set (alternatives p).
              re_sem (ignorecase p) alt (char_before None pre) (group0 m) post (groups m) \<and>
              re_match (ignorecase p) alt (char_before None pre) (group0 m @ post) = Some (groups m, post)) \<and>
           (\<forall>pre' w' post'. text = pre' @ w' @ post' \<and> re_occurs p pre' w' post' \<longrightarrow>
              length pre \<le> length pre')"
proof -
  from assms have "re_search_from p None text = Some m" by (simp add: re_search_def)
  from re_search_from_Some [OF this] obtain pre t gs rest where
    eq: "text = pre @ t"
    and a: "re_alts (ignorecase p) (alternatives p) (char_before None pre) t = Some (gs, rest)"
    and m: "m = \<lparr>group0 = take (length t - length rest) t, groups = gs\<rparr>"
    and first: "\<forall>pre' t'. text = pre' @ t' \<and> length pre' < length pre \<longrightarrow>
           re_alts (ignorecase p) (alternatives p) (char_before None pre') t' = None"
    by blast
  from re_alts_Some [OF a] obtain alt where alt: "alt \<in> set (alternatives p)"
    and rm: "re_match (ignorecase p) alt (char_before None pre) t = Some (gs, rest)" by blast
  from re_match_sound [OF rm] obtain w where w: "t = w @ rest"
    and sem: "re_sem (ignorecase p) alt (char_before None pre) w rest gs" by blast
  from w m have g0: "group0 m = w" and gr: "groups m = gs" by simp_all
  have least: "length pre \<le> length pre'"
    if "text = pre' @ w' @ post'" "re_occurs p pre' w' post'" for pre' w' post'
  proof (rule ccontr)
    assume "\<not> length pre \<le> length pre'"
    then have "length pre' < length pre" by simp
    with first that(1) have "re_alts (ignorecase p) (alternatives p) (char_before None pre') (w' @ post') = None"
      by blast
    moreover from that(2) have "re_alts (ignorecase p) (alternatives p) (char_before None pre') (w' @ post') \<noteq> None"
      unfolding re_alts_matches_iff re_occurs_def by blast
    ultimately show False by simp
  qed
  show ?thesis
    apply (rule exI [of _ pre])
    apply (rule exI [of _ rest])
    using eq w g0 gr alt sem rm least by auto
qed

section \<open>Properties of the message interpreter\<close>

lemma re_sem_lit:
  "re_sem ic (lit l @ its) prev w rest gs \<longleftrightarrow>
     (\<exists>x v. w = x @ v \<and> list_all2 (chr_eq ic) l x \<and> re_sem ic its (char_before prev x) v rest gs)"
proof (induction l arbitrary: prev w)
  case Nil
  then show ?case by (simp add: lit_def char_before_def)
next
  case (Cons c l)
  have "re_sem ic (lit (c # l) @ its) prev w rest gs \<longleftrightarrow>
          (\<exists>y w'. w = y # w' \<and> chr_eq ic c y \<and> re_sem ic (lit l @ its) (Some y) w' rest gs)"
    by (simp add: lit_def)
  also have "\<dots> \<longleftrightarrow> (\<exists>y w'. w = y # w' \<and> chr_eq ic c y \<and>
          (\<exists>x v. w' = x @ v \<and> list_all2 (chr_eq ic) l x \<and> re_sem ic its (char_before (Some y) x) v rest gs))"
    by (simp only: Cons.IH)
  also have "\<dots> \<longleftrightarrow> (\<exists>x v. w = x @ v \<and> list_all2 (chr_eq ic) (c # l) x \<and>
          re_sem ic its (char_before prev x) v rest gs)"
    (is "?L \<longleftrightarrow> ?R")
  proof
    assume ?L
    then obtain y w' x v where "w = y # w'" "chr_eq ic c y" "w' = x @ v" "list_all2 (chr_eq ic) l x"
      "re_sem ic its (char_before (Some y) x) v rest gs" by blast
    then show ?R
      by (intro exI [of _ "y # x"] exI [of _ v]) (simp add: char_before_Cons)
  next
    assume ?R
    then obtain x v where x: "w = x @ v" "list_all2 (chr_eq ic) (c # l) x"
      "re_sem ic its (char_before prev x) v rest gs" by blast
    from x(2) obtain y x' where "x = y # x'" "chr_eq ic c y" "list_all2 (chr_eq ic) l x'"
      by (auto simp: list_all2_Cons1)
    with x show ?L by (auto simp: char_before_Cons)
  qed
  finally show ?case .
qed

lemma chr_eq_exact: "chr_eq False c x \<longleftrightarrow> x = c"
  by (simp add: chr_eq_def)

lemma list_all2_chr_eq_exact: "list_all2 (chr_eq False) l x \<longleftrightarrow> x = l"
  by (induction l arbitrary: x) (auto simp: list_all2_Cons1 chr_eq_exact)

lemma list_all2_chr_eq_lower:
  "py_lower l = l \<Longrightarrow> list_all2 (chr_eq True) l x \<longleftrightarrow> py_lower x = l"
proof (induction l arbitrary: x)
  case Nil
  then show ?case by (simp add: py_lower_def)
next
  case (Cons c l)
  then have c: "py_lower_char c = c" and l: "py_lower l = l" by (simp_all add: py_lower_def)
  have "chr_eq True c y \<longleftrightarrow> py_lower_char y = c" for y
    using c by (auto simp: chr_eq_def)
  with Cons.IH [OF l] show ?case
    by (cases x) (auto simp: py_lower_def)
qed

lemma py_isword_lower: "py_isword (py_lower_char c) = py_isword c"
proof -
  have lt: "(of_char c :: nat) < 256" by simp
  show ?thesis
    using lt unfolding py_isword_def py_lower_char_def Let_def
    by (auto simp: of_char_of)
qed

lemma re_sem_Bnd_end:
  "re_sem ic [Bnd] prev w rest gs \<longleftrightarrow> word_boundary prev rest \<and> w = [] \<and> gs = []"
  by auto

lemma re_sem_lit_end:
  "re_sem ic (lit l) prev w rest gs \<longleftrightarrow> list_all2 (chr_eq ic) l w \<and> gs = []"
  using re_sem_lit [of ic l "[]" prev w rest gs] by auto

lemma py_lower_hd_word:
  assumes "py_lower w = c # cs" and "py_isword c"
  shows "w \<noteq> []" and "py_isword (hd w)"
proof -
  from assms(1) obtain a as where w: "w = a # as" and a: "py_lower_char a = c"
    by (cases w) (auto simp: py_lower_def)
  from w show "w \<noteq> []" by simp
  from a assms(2) py_isword_lower [of a] w show "py_isword (hd w)" by simp
qed

lemma py_lower_last_word:
  assumes "py_lower w = cs" and "cs \<noteq> []" and "py_isword (last cs)"
  shows "py_isword (last w)"
proof -
  from assms(1,2) have ne: "w \<noteq> []" by (auto simp: py_lower_def)
  then have "last cs = py_lower_char (last w)"
    using assms(1) by (auto simp: py_lower_def last_map)
  with assms(3) py_isword_lower [of "last w"] show ?thesis by simp
qed

lemma re_sem_merge_word:
  "re_sem True ([Bnd] @ lit ''merge'' @ [Bnd]) (char_before None pre) w post gs \<longleftrightarrow>
     gs = [] \<and> standalone_word ''merge'' pre w post"
proof -
  let ?prev = "char_before None pre"
  have low: "py_lower ''merge'' = ''merge''"
    by (simp add: py_lower_def py_lower_char_def)
  have "re_sem True ([Bnd] @ lit ''merge'' @ [Bnd]) ?prev w post gs \<longleftrightarrow>
      word_boundary ?prev (w @ post) \<and>
      (\<exists>x v. w = x @ v \<and> py_lower x = ''merge'' \<and> re_sem True [Bnd] (char_before ?prev x) v post gs)"
    using re_sem_lit [of True "''merge''" "[Bnd]" ?prev w post gs] list_all2_chr_eq_lower [OF low]
    by simp
  also have "\<dots> \<longleftrightarrow> gs = [] \<and> py_lower w = ''merge'' \<and> word_boundary ?prev (w @ post) \<and>
      word_boundary (char_before ?prev w) post"
    by (auto simp: re_sem_Bnd_end)
  also have "\<dots> \<longleftrightarrow> gs = [] \<and> standalone_word ''merge'' pre w post"
  proof (cases "py_lower w = ''merge''")
    case False
    then show ?thesis by (simp add: standalone_word_def)
  next
    case True
    have m: "py_isword CHR ''m''" and e: "py_isword (last ''merge'')"
      by (simp_all add: py_isword_def)
    from py_lower_hd_word [OF True m] have ne: "w \<noteq> []" and h: "py_isword (hd w)" by simp_all
    from py_lower_last_word [OF True _ e] have l: "py_isword (last w)" by simp
    have 1: "word_boundary ?prev (w @ post) \<longleftrightarrow> pre = [] \<or> \<not> py_isword (last pre)"
      using ne h by (cases w) (auto simp: word_boundary_def char_before_def)
    have 2: "word_boundary (char_before ?prev w) post \<longleftrightarrow> post = [] \<or> \<not> py_isword (hd post)"
      using ne l by (cases post) (auto simp: word_boundary_def char_before_def)
    from True 1 2 show ?thesis by (simp add: standalone_word_def)
  qed
  finally show ?thesis .
qed

lemma re_sem_phrase:
  assumes a: "py_lower a = a" and b: "py_lower b = b"
  shows "re_sem True (lit a @ [Plus py_isspace] @ lit b) prev w post gs \<longleftrightarrow> gs = [] \<and> phrase a b w"
proof -
  have "re_sem True (lit a @ [Plus py_isspace] @ lit b) prev w post gs \<longleftrightarrow>
      (\<exists>x v. w = x @ v \<and> py_lower x = a \<and>
         re_sem True (Plus py_isspace # lit b) (char_before prev x) v post gs)"
    using re_sem_lit [of True a "[Plus py_isspace] @ lit b" prev w post gs] list_all2_chr_eq_lower [OF a]
    by simp
  also have "\<dots> \<longleftrightarrow> (\<exists>x v. w = x @ v \<and> py_lower x = a \<and>
         (\<exists>u y. v = u @ y \<and> u \<noteq> [] \<and> list_all py_isspace u \<and> py_lower y = b \<and> gs = []))"
    using list_all2_chr_eq_lower [OF b] by (simp add: re_sem_lit_end)
  also have "\<dots> \<longleftrightarrow> gs = [] \<and> phrase a b w"
    unfolding phrase_def by blast
  finally show ?thesis .
qed

lemma re_occurs_MERGE_KEYWORDS:
  "re_occurs MERGE_KEYWORDS pre w post \<longleftrightarrow>
     standalone_word ''merge'' pre w post \<or> phrase ''can'' ''u'' w \<or> phrase ''please'' ''merge'' w"
proof -
  have low: "py_lower ''can'' = ''can''" "py_lower ''u'' = ''u''" "py_lower ''please'' = ''please''"
    "py_lower ''merge'' = ''merge''"
    by (simp_all add: py_lower_def py_lower_char_def)
  have 1: "(\<exists>gs. re_sem True ([Bnd] @ lit ''merge'' @ [Bnd]) (char_before None pre) w post gs) \<longleftrightarrow>
      standalone_word ''merge'' pre w post"
    by (simp only: re_sem_merge_word) simp
  have 2: "(\<exists>gs. re_sem True (lit ''can'' @ [Plus py_isspace] @ lit ''u'') (char_before None pre) w post gs) \<longleftrightarrow>
      phrase ''can'' ''u'' w"
    by (simp only: re_sem_phrase [OF low(1) low(2)]) simp
  have 3: "(\<exists>gs. re_sem True (lit ''please'' @ [Plus py_isspace] @ lit ''merge'') (char_before None pre) w post gs) \<longleftrightarrow>
      phrase ''please'' ''merge'' w"
    by (simp only: re_sem_phrase [OF low(3) low(4)]) simp
  have "re_occurs MERGE_KEYWORDS pre w post \<longleftrightarrow>
      (\<exists>gs. re_sem True ([Bnd] @ lit ''merge'' @ [Bnd]) (char_before None pre) w post gs) \<or>
      (\<exists>gs. re_sem True (lit ''can'' @ [Plus py_isspace] @ lit ''u'') (char_before None pre) w post gs) \<or>
      (\<exists>gs. re_sem True (lit ''please'' @ [Plus py_isspace] @ lit ''merge'') (char_before None pre) w post gs)"
    unfolding re_occurs_def MERGE_KEYWORDS_def
    by (simp del: re_sem.simps append.simps)
  with 1 2 3 show ?thesis by simp
qed

text \<open>
  C6. \<open>has_merge_intent\<close> returns true exactly when the text contains the standalone word
  \<open>merge\<close> (in any case, with no word character before or after it) or one of the phrases
  \<open>can u\<close> and \<open>please merge\<close> (in any case, the two words separated by white space).
\<close>

theorem has_merge_intent_iff: "has_merge_intent text \<longleftrightarrow> merge_intent_spec text"
  unfolding has_merge_intent_def merge_intent_spec_def
  by (simp add: re_search_None_iff re_occurs_MERGE_KEYWORDS)

theorem has_merge_intent_iff_witness:
  "has_merge_intent ''MERGE it now'' \<and> merge_intent_spec ''MERGE it now'' \<and>
   \<not> has_merge_intent ''submerged'' \<and> \<not> merge_intent_spec ''submerged''"
proof -
  have 1: "has_merge_intent ''MERGE it now''" by code_simp
  have 2: "\<not> has_merge_intent ''submerged''" by code_simp
  from 1 2 has_merge_intent_iff [of "''MERGE it now''"] has_merge_intent_iff [of "''submerged''"]
  show ?thesis by blast
qed

text \<open>
  C10. The phrase patterns carry no word boundary: a text that contains \<open>can\<close>, white
  space and \<open>u\<close> anywhere, also inside longer words, has merge intent.
\<close>

theorem can_u_inside_words:
  assumes "ws \<noteq> []" and "list_all py_isspace ws"
  shows "has_merge_intent (pre @ ''can'' @ ws @ ''u'' @ post)"
proof -
  have low: "py_lower ''can'' = ''can''" "py_lower ''u'' = ''u''"
    by (simp_all add: py_lower_def py_lower_char_def)
  from assms have "phrase ''can'' ''u'' (''can'' @ ws @ ''u'')"
    unfolding phrase_def using low by blast
  then have "re_occurs MERGE_KEYWORDS pre (''can'' @ ws @ ''u'') post"
    unfolding re_occurs_MERGE_KEYWORDS by blast
  moreover have "pre @ ''can'' @ ws @ ''u'' @ post = pre @ (''can'' @ ws @ ''u'') @ post" by simp
  ultimately have "\<exists>p w q. pre @ ''can'' @ ws @ ''u'' @ post = p @ w @ q \<and> re_occurs MERGE_KEYWORDS p w q"
    by blast
  then show ?thesis
    unfolding has_merge_intent_def re_search_None_iff by blast
qed

theorem can_u_inside_words_witness: "has_merge_intent ''american university''"
proof -
  have ws: "'' '' \<noteq> []" "list_all py_isspace '' ''"
    by (simp_all add: py_isspace_def)
  from can_u_inside_words [OF ws, of "''ameri''" "''niversity''"] show ?thesis by simp
qed
lemma re_match_last_greedy:
  "re_match ic (its @ [Cap cls]) prev s = Some (gs, rest) \<Longrightarrow> rest = [] \<or> \<not> cls (hd rest)"
proof (induction its arbitrary: prev s gs)
  case Nil
  let ?f = "\<lambda>k. case re_match ic [] (Some (s ! (k - 1))) (drop k s) of
                   None \<Rightarrow> None
                 | Some (gs, rest) \<Rightarrow> Some (take k s # gs, rest)"
  let ?n = "length (takeWhile cls s)"
  from Nil have "backtrack ?f ?n = Some (gs, rest)" by simp
  from backtrack_Some [OF this] obtain k where k: "0 < k" "k \<le> ?n" "?f k = Some (gs, rest)"
    and top: "\<forall>j. k < j \<and> j \<le> ?n \<longrightarrow> ?f j = None" by blast
  have "k = ?n"
  proof (rule ccontr)
    assume "k \<noteq> ?n"
    with k(2) have "k < ?n" by simp
    with top have "?f ?n = None" by blast
    then show False by simp
  qed
  with k(3) have "rest = drop ?n s" by simp
  then have "rest = dropWhile cls s" by (simp add: dropWhile_eq_drop)
  then show ?case using hd_dropWhile [of cls s] by auto
next
  case (Cons it its)
  show ?case
  proof (cases it)
    case (Chr c)
    with Cons.prems obtain x xs where "re_match ic (its @ [Cap cls]) (Some x) xs = Some (gs, rest)"
      by (auto split: list.splits if_splits)
    from Cons.IH [OF this] show ?thesis .
  next
    case Bnd
    with Cons.prems have "re_match ic (its @ [Cap cls]) prev s = Some (gs, rest)"
      by (auto split: if_splits)
    from Cons.IH [OF this] show ?thesis .
  next
    case (Plus c')
    with Cons.prems have
      "backtrack (\<lambda>k. re_match ic (its @ [Cap cls]) (Some (s ! (k - 1))) (drop k s))
         (length (takeWhile c' s)) = Some (gs, rest)"
      by simp
    from backtrack_Some [OF this] obtain k where
      "re_match ic (its @ [Cap cls]) (Some (s ! (k - 1))) (drop k s) = Some (gs, rest)" by blast
    from Cons.IH [OF this] show ?thesis .
  next
    case (Cap c')
    with Cons.prems have
      "backtrack (\<lambda>k. case re_match ic (its @ [Cap cls]) (Some (s ! (k - 1))) (drop k s) of
                   None \<Rightarrow> None
                 | Some (gs, rest) \<Rightarrow> Some (take k s # gs, rest))
         (length (takeWhile c' s)) = Some (gs, rest)"
      by simp
    from backtrack_Some [OF this] obtain k gs' where
      "re_match ic (its @ [Cap cls]) (Some (s ! (k - 1))) (drop k s) = Some (gs', rest)"
      by (auto split: option.splits)
    from Cons.IH [OF this] show ?thesis .
  qed
qed

lemma re_sem_PR_URL:
  "re_sem False
     (lit ''https://github.com/'' @ [Cap repo_char] @ lit ''/'' @ [Cap repo_char]
        @ lit ''/pull/'' @ [Cap py_isdigit]) prev w post gs \<longleftrightarrow>
   (\<exists>own rep number. gs = [own, rep, number] \<and> is_pr_url w own rep number)"
proof -
  have cap_end: "re_sem False [Cap py_isdigit] q v post g \<longleftrightarrow>
      (\<exists>d. v = d \<and> g = [d] \<and> d \<noteq> [] \<and> list_all py_isdigit d)" for q v g
    by auto
  have pull: "re_sem False (lit ''/pull/'' @ [Cap py_isdigit]) q v post g \<longleftrightarrow>
      (\<exists>d. v = ''/pull/'' @ d \<and> g = [d] \<and> d \<noteq> [] \<and> list_all py_isdigit d)" for q v g
    unfolding re_sem_lit list_all2_chr_eq_exact cap_end by blast
  have rep: "re_sem False ([Cap repo_char] @ lit ''/pull/'' @ [Cap py_isdigit]) q v post g \<longleftrightarrow>
      (\<exists>r d. v = r @ ''/pull/'' @ d \<and> g = [r, d] \<and> r \<noteq> [] \<and> list_all repo_char r \<and>
         d \<noteq> [] \<and> list_all py_isdigit d)" for q v g
  proof -
    have "re_sem False ([Cap repo_char] @ lit ''/pull/'' @ [Cap py_isdigit]) q v post g \<longleftrightarrow>
        (\<exists>u w' gs'. v = u @ w' \<and> g = u # gs' \<and> u \<noteq> [] \<and> list_all repo_char u \<and>
           re_sem False (lit ''/pull/'' @ [Cap py_isdigit]) (Some (last u)) w' post gs')"
      by simp
    also have "\<dots> \<longleftrightarrow> (\<exists>r d. v = r @ ''/pull/'' @ d \<and> g = [r, d] \<and> r \<noteq> [] \<and> list_all repo_char r \<and>
         d \<noteq> [] \<and> list_all py_isdigit d)"
      unfolding pull by blast
    finally show ?thesis .
  qed
  have slash: "re_sem False (lit ''/'' @ [Cap repo_char] @ lit ''/pull/'' @ [Cap py_isdigit]) q v post g \<longleftrightarrow>
      (\<exists>r d. v = ''/'' @ r @ ''/pull/'' @ d \<and> g = [r, d] \<and> r \<noteq> [] \<and> list_all repo_char r \<and>
         d \<noteq> [] \<and> list_all py_isdigit d)" for q v g
    unfolding re_sem_lit list_all2_chr_eq_exact rep by blast
  have own: "re_sem False ([Cap repo_char] @ lit ''/'' @ [Cap repo_char] @ lit ''/pull/'' @ [Cap py_isdigit])
        q v post g \<longleftrightarrow>
      (\<exists>a r d. v = a @ ''/'' @ r @ ''/pull/'' @ d \<and> g = [a, r, d] \<and> a \<noteq> [] \<and> list_all repo_char a \<and>
         r \<noteq> [] \<and> list_all repo_char r \<and> d \<noteq> [] \<and> list_all py_isdigit d)" for q v g
  proof -
    have "re_sem False ([Cap repo_char] @ lit ''/'' @ [Cap repo_char] @ lit ''/pull/'' @ [Cap py_isdigit])
        q v post g \<longleftrightarrow>
        (\<exists>u w' gs'. v = u @ w' \<and> g = u # gs' \<and> u \<noteq> [] \<and> list_all repo_char u \<and>
           re_sem False (lit ''/'' @ [Cap repo_char] @ lit ''/pull/'' @ [Cap py_isdigit]) (Some (last u)) w' post gs')"
      by simp
    also have "\<dots> \<longleftrightarrow> (\<exists>a r d. v = a @ ''/'' @ r @ ''/pull/'' @ d \<and> g = [a, r, d] \<and> a \<noteq> [] \<and>
         list_all repo_char a \<and> r \<noteq> [] \<and> list_all repo_char r \<and> d \<noteq> [] \<and> list_all py_isdigit d)"
      unfolding slash by blast
    finally show ?thesis .
  qed
  show ?thesis
    unfolding re_sem_lit list_all2_chr_eq_exact own is_pr_url_def by blast
qed

lemma re_occurs_PR_URL:
  "re_occurs PR_URL_PATTERN pre w post \<longleftrightarrow> (\<exists>own rep number. is_pr_url w own rep number)"
proof -
  have "re_occurs PR_URL_PATTERN pre w post \<longleftrightarrow>
      (\<exists>gs. re_sem False
         (lit ''https://github.com/'' @ [Cap repo_char] @ lit ''/'' @ [Cap repo_char]
            @ lit ''/pull/'' @ [Cap py_isdigit]) (char_before None pre) w post gs)"
    unfolding re_occurs_def PR_URL_PATTERN_def by (simp del: re_sem.simps append.simps)
  then show ?thesis unfolding re_sem_PR_URL by blast
qed

lemma dropWhile_hd_not: "xs \<noteq> [] \<Longrightarrow> \<not> P (hd xs) \<Longrightarrow> dropWhile P xs = xs"
  by (cases xs) auto

lemma int_literal_digits: "d \<noteq> [] \<Longrightarrow> list_all py_isdigit d \<Longrightarrow> int_literal d"
proof (induction d rule: int_literal.induct)
  case 1
  then show ?case by simp
next
  case (2 c)
  then show ?case by simp
next
  case (3 c e r)
  then have "e \<noteq> CHR ''_''" by (auto simp: py_isdigit_def)
  with 3 show ?case by simp
qed

lemma py_int_digits:
  assumes ne: "d \<noteq> []" and dig: "list_all py_isdigit d"
  shows "py_int d = (if int_max_str_digits < length d then Inl ValueError
                     else Inr (int (decimal_value d)))"
proof -
  have nsp: "\<not> int_space c" if "py_isdigit c" for c
    using that by (auto simp: py_isdigit_def int_space_def Let_def)
  from ne dig have h: "py_isdigit (hd d)" and l: "py_isdigit (last d)"
    by (auto simp: list_all_iff)
  have s1: "dropWhile int_space d = d"
    using ne nsp [OF h] by (rule dropWhile_hd_not)
  have "hd (rev d) = last d" using ne by (simp add: hd_rev)
  then have s2: "dropWhile int_space (rev d) = rev d"
    using ne nsp [OF l] by (intro dropWhile_hd_not) simp_all
  obtain c r where d: "d = c # r" using ne by (cases d) auto
  with h have c: "c \<noteq> CHR ''+''" "c \<noteq> CHR ''-''" by (auto simp: py_isdigit_def)
  have f: "filter (\<lambda>c. c \<noteq> CHR ''_'') d = d"
    using dig by (induction d) (auto simp: py_isdigit_def)
  have il: "int_literal (c # r)" using int_literal_digits [OF ne dig] d by simp
  show ?thesis
    unfolding py_int_def s1 s2 rev_rev_ident Let_def
    using c il f d by simp
qed

lemma takeWhile_run:
  "list_all P xs \<Longrightarrow> rest = [] \<or> \<not> P (hd rest) \<Longrightarrow> takeWhile P (xs @ rest) = xs"
proof (induction xs)
  case Nil
  then show ?case by (cases rest) auto
next
  case (Cons x xs)
  then show ?case by simp
qed

lemma pr_url_unique:
  assumes eq: "u @ post = u' @ post'"
    and u: "is_pr_url u a r d" and u': "is_pr_url u' a' r' d'"
    and g: "post = [] \<or> \<not> py_isdigit (hd post)" and g': "post' = [] \<or> \<not> py_isdigit (hd post')"
  shows "u = u' \<and> a = a' \<and> r = r' \<and> d = d' \<and> post = post'"
proof -
  have slash: "\<not> repo_char CHR ''/''" by (simp add: repo_char_def)
  from u have ud: "u = ''https://github.com/'' @ a @ ''/'' @ r @ ''/pull/'' @ d"
    and a: "list_all repo_char a" and r: "list_all repo_char r" and d: "list_all py_isdigit d"
    by (simp_all add: is_pr_url_def)
  from u' have ud': "u' = ''https://github.com/'' @ a' @ ''/'' @ r' @ ''/pull/'' @ d'"
    and a': "list_all repo_char a'" and r': "list_all repo_char r'" and d': "list_all py_isdigit d'"
    by (simp_all add: is_pr_url_def)
  from eq ud ud' have e1: "a @ (CHR ''/'' # r @ ''/pull/'' @ d @ post) = a' @ (CHR ''/'' # r' @ ''/pull/'' @ d' @ post')"
    by simp
  have "takeWhile repo_char (a @ (CHR ''/'' # r @ ''/pull/'' @ d @ post)) = a"
    using a slash by (intro takeWhile_run) simp_all
  moreover have "takeWhile repo_char (a' @ (CHR ''/'' # r' @ ''/pull/'' @ d' @ post')) = a'"
    using a' slash by (intro takeWhile_run) simp_all
  ultimately have aa: "a = a'" using e1 by simp
  with e1 have e2: "r @ (CHR ''/'' # ''pull/'' @ d @ post) = r' @ (CHR ''/'' # ''pull/'' @ d' @ post')"
    by simp
  have "takeWhile repo_char (r @ (CHR ''/'' # ''pull/'' @ d @ post)) = r"
    using r slash by (intro takeWhile_run) simp_all
  moreover have "takeWhile repo_char (r' @ (CHR ''/'' # ''pull/'' @ d' @ post')) = r'"
    using r' slash by (intro takeWhile_run) simp_all
  ultimately have rr: "r = r'" using e2 by simp
  with e2 have e3: "d @ post = d' @ post'" by simp
  have "takeWhile py_isdigit (d @ post) = d" using d g by (rule takeWhile_run)
  moreover have "takeWhile py_isdigit (d' @ post') = d'" using d' g' by (rule takeWhile_run)
  ultimately have dd: "d = d'" using e3 by simp
  with e3 have "post = post'" by simp
  with aa rr dd ud ud' show ?thesis by simp
qed

text \<open>
  C5, as amended. \<open>extract_pr\<close> returns none exactly when the text contains no
  pull-request URL. A \<open>ParsedPR\<close> that it returns is taken from the first URL of the text
  (no URL starts further left) with the longest run of digits: \<open>url\<close> is the matched
  substring, \<open>owner\<close> and \<open>repo\<close> are its non-empty parts over the restricted character
  set, and \<open>pull_number\<close> is the value of its digits, which is at least 0 (not always
  positive). The only failure is the \<open>ValueError\<close> of \<open>int\<close> on a run of more than 4300
  digits.
\<close>

theorem extract_pr_first_url:
  "(extract_pr text = Inr None \<longleftrightarrow> \<not> contains_pr_url text) \<and>
   (\<forall>pr. extract_pr text = Inr (Some pr) \<longrightarrow>
      (\<exists>pre post number.
         first_pr_url text pre (url pr) post (owner pr) (repo pr) number \<and>
         pull_number pr = int (decimal_value number) \<and> 0 \<le> pull_number pr)) \<and>
   (\<forall>e. extract_pr text = Inl e \<longrightarrow>
      e = ValueError \<and>
      (\<exists>pre number post. text = pre @ number @ post \<and> list_all py_isdigit number \<and>
         int_max_str_digits < length number)) \<and>
   (\<forall>pre u post own rep number.
      first_pr_url text pre u post own rep number \<longrightarrow>
        extract_pr text =
          (if int_max_str_digits < length number then Inl ValueError
           else Inr (Some \<lparr>owner = own, repo = rep, pull_number = int (decimal_value number), url = u\<rparr>)))"
proof (cases "re_search PR_URL_PATTERN text")
  case None
  then have 1: "extract_pr text = Inr None" by (simp add: extract_pr_def)
  from None have "\<not> contains_pr_url text"
    unfolding re_search_None_iff re_occurs_PR_URL contains_pr_url_def by blast
  moreover from this have "\<not> first_pr_url text pre u post own rep number" for pre u post own rep number
    unfolding contains_pr_url_def first_pr_url_def by blast
  ultimately show ?thesis using 1 by simp
next
  case (Some m)
  let ?items = "lit ''https://github.com/'' @ [Cap repo_char] @ lit ''/'' @ [Cap repo_char]
        @ lit ''/pull/'' @ [Cap py_isdigit]"
  have alts: "alternatives PR_URL_PATTERN = [?items]" and ic: "ignorecase PR_URL_PATTERN = False"
    by (simp_all add: PR_URL_PATTERN_def)
  from re_search_Some [OF Some] obtain pre post where
    eq: "text = pre @ group0 m @ post"
    and sem: "re_sem False ?items (char_before None pre) (group0 m) post (groups m)"
    and rm: "re_match False ?items (char_before None pre) (group0 m @ post) = Some (groups m, post)"
    and least: "\<forall>pre' w' post'. text = pre' @ w' @ post' \<and> re_occurs PR_URL_PATTERN pre' w' post' \<longrightarrow>
              length pre \<le> length pre'"
    unfolding alts ic by auto
  from sem obtain own rep number where g: "groups m = [own, rep, number]"
    and u: "is_pr_url (group0 m) own rep number"
    unfolding re_sem_PR_URL by blast
  from u have dig: "number \<noteq> []" "list_all py_isdigit number" by (simp_all add: is_pr_url_def)
  have greedy: "post = [] \<or> \<not> py_isdigit (hd post)"
    using re_match_last_greedy [of False "lit ''https://github.com/'' @ [Cap repo_char] @ lit ''/''
        @ [Cap repo_char] @ lit ''/pull/''" py_isdigit] rm by simp
  have contains: "contains_pr_url text"
    unfolding contains_pr_url_def using eq u by blast
  have least': "\<forall>pre' u' post' own' rep' number'.
            text = pre' @ u' @ post' \<and> is_pr_url u' own' rep' number' \<longrightarrow> length pre \<le> length pre'"
    using least unfolding re_occurs_PR_URL by blast
  have ex: "extract_pr text =
      (if int_max_str_digits < length number then Inl ValueError
       else Inr (Some \<lparr>owner = own, repo = rep, pull_number = int (decimal_value number), url = group0 m\<rparr>))"
    using Some g py_int_digits [OF dig] by (simp add: extract_pr_def)
  have first: "first_pr_url text pre (group0 m) post own rep number"
    unfolding first_pr_url_def using eq u greedy least' by blast
  have exact: "extract_pr text =
      (if int_max_str_digits < length d then Inl ValueError
       else Inr (Some \<lparr>owner = a, repo = r, pull_number = int (decimal_value d), url = v\<rparr>))"
    if f: "first_pr_url text p v q a r d" for p v q a r d
  proof -
    from f have f1: "text = p @ v @ q" and f2: "is_pr_url v a r d"
      and f3: "q = [] \<or> \<not> py_isdigit (hd q)"
      and f4: "\<forall>pre' u' post' own' rep' number'.
         text = pre' @ u' @ post' \<and> is_pr_url u' own' rep' number' \<longrightarrow> length p \<le> length pre'"
      unfolding first_pr_url_def by blast+
    from f4 eq u have "length p \<le> length pre" by blast
    moreover from least' f1 f2 have "length pre \<le> length p" by blast
    ultimately have len: "length p = length pre" by simp
    with eq f1 have "p = pre" "v @ q = group0 m @ post"
      by (auto simp: append_eq_append_conv)
    from pr_url_unique [OF this(2) f2 u f3 greedy] ex show ?thesis by simp
  qed
  show ?thesis
  proof (cases "int_max_str_digits < length number")
    case True
    with ex have e: "extract_pr text = Inl ValueError" by simp
    from u eq have "text = (pre @ ''https://github.com/'' @ own @ ''/'' @ rep @ ''/pull/'') @ number @ post"
      by (simp add: is_pr_url_def)
    with dig(2) True have "\<exists>pre number post. text = pre @ number @ post \<and> list_all py_isdigit number \<and>
         int_max_str_digits < length number" by blast
    with e contains exact show ?thesis by simp
  next
    case False
    with ex have e: "extract_pr text =
        Inr (Some \<lparr>owner = own, repo = rep, pull_number = int (decimal_value number), url = group0 m\<rparr>)"
      by simp
    have "\<exists>pre post number'.
         first_pr_url text pre (group0 m) post own rep number' \<and>
         int (decimal_value number) = int (decimal_value number')"
      using first by blast
    with e contains exact show ?thesis by simp
  qed
qed

theorem extract_pr_first_url_witness:
  "extract_pr ''please merge https://github.com/acme/widgets/pull/7'' =
     Inr (Some \<lparr>owner = ''acme'', repo = ''widgets'', pull_number = 7,
                 url = ''https://github.com/acme/widgets/pull/7''\<rparr>) \<and>
   contains_pr_url ''please merge https://github.com/acme/widgets/pull/7'' \<and>
   extract_pr ''just a plain message'' = Inr None \<and>
   \<not> contains_pr_url ''just a plain message'' \<and>
   (\<exists>pre post number.
      first_pr_url ''please merge https://github.com/acme/widgets/pull/7'' pre
        ''https://github.com/acme/widgets/pull/7'' post ''acme'' ''widgets'' number) \<and>
   extract_pr (''https://github.com/a/b/pull/'' @ replicate 4301 (CHR ''9'')) = Inl ValueError \<and>
   (\<exists>pre number post.
      ''https://github.com/a/b/pull/'' @ replicate 4301 (CHR ''9'') = pre @ number @ post \<and>
      list_all py_isdigit number \<and> int_max_str_digits < length number)"
proof -
  let ?long = "''https://github.com/a/b/pull/'' @ replicate 4301 (CHR ''9'')"
  have "is_pr_url ?long ''a'' ''b'' (replicate 4301 (CHR ''9''))"
    by (simp add: is_pr_url_def repo_char_def py_isdigit_def list_all_iff)
  then have "first_pr_url ?long [] ?long [] ''a'' ''b'' (replicate 4301 (CHR ''9''))"
    by (simp add: first_pr_url_def)
  with extract_pr_first_url [of ?long]
  have 5: "extract_pr ?long = Inl ValueError"
    by (simp add: int_max_str_digits_def)
  with extract_pr_first_url [of ?long]
  have 6: "\<exists>pre number post. ?long = pre @ number @ post \<and>
      list_all py_isdigit number \<and> int_max_str_digits < length number"
    by blast
  have 1: "extract_pr ''please merge https://github.com/acme/widgets/pull/7'' =
     Inr (Some \<lparr>owner = ''acme'', repo = ''widgets'', pull_number = 7,
                 url = ''https://github.com/acme/widgets/pull/7''\<rparr>)"
    by code_simp
  have 2: "extract_pr ''just a plain message'' = Inr None"
    by code_simp
  from 1 extract_pr_first_url [of "''please merge https://github.com/acme/widgets/pull/7''"]
  have 3: "contains_pr_url ''please merge https://github.com/acme/widgets/pull/7''"
    by (metis Inr_inject option.distinct(1))
  from 2 extract_pr_first_url [of "''just a plain message''"]
  have 4: "\<not> contains_pr_url ''just a plain message''"
    by blast
  from 1 extract_pr_first_url [of "''please merge https://github.com/acme/widgets/pull/7''"]
  have 7: "\<exists>pre post number.
      first_pr_url ''please merge https://github.com/acme/widgets/pull/7'' pre
        ''https://github.com/acme/widgets/pull/7'' post ''acme'' ''widgets'' number"
    by fastforce
  from 1 2 3 4 5 6 7 show ?thesis by blast
qed

theorem extract_pr_counterexample:
  "extract_pr ''https://github.com/a/b/pull/0'' =
     Inr (Some \<lparr>owner = ''a'', repo = ''b'', pull_number = 0, url = ''https://github.com/a/b/pull/0''\<rparr>)"
  by code_simp

section \<open>Properties of the signature check\<close>

lemma verify_slack_signature_non_integer:
  "py_int timestamp = Inl ValueError \<Longrightarrow>
     verify_slack_signature now body timestamp signature signing_secret = Inr False"
  by (simp add: verify_slack_signature_def)

lemma round_double_0: "round_double 0 = 0"
  by (simp add: round_double_def)

lemma round_double_ts: "round_double 1700000000 = 1700000000"
  by code_simp

lemma decimal_value_zeros: "foldl (\<lambda>a c. 10 * a + digit_value c) a (replicate n CHR ''0'') = a * 10 ^ n"
  by (induction n arbitrary: a) (simp_all add: digit_value_def)

lemma py_int_ts: "py_int ''1700000000'' = Inr 1700000000"
  by (subst py_int_digits) (simp_all add: py_isdigit_def int_max_str_digits_def decimal_value_def digit_value_def)

lemma py_int_long: "py_int (CHR ''1'' # replicate 400 CHR ''0'') = Inr (10 ^ 400)"
proof -
  have d: "list_all py_isdigit (CHR ''1'' # replicate 400 CHR ''0'')"
    by (simp add: py_isdigit_def list_all_iff del: replicate.simps)
  have v: "decimal_value (CHR ''1'' # replicate 400 CHR ''0'') = 10 ^ 400"
    unfolding decimal_value_def foldl.simps decimal_value_zeros
    by (simp add: digit_value_def)
  have "py_int (CHR ''1'' # replicate 400 CHR ''0'') = Inr (int (decimal_value (CHR ''1'' # replicate 400 CHR ''0'')))"
    using d by (subst py_int_digits) (simp_all add: int_max_str_digits_def)
  with v show ?thesis by simp
qed

text \<open>
  C2. \<open>verify_slack_signature\<close> does not return a boolean on every input. At the time
  1700000000, the timestamp \<open>1\<close> followed by 400 zeros is an integer far more than 300
  seconds ahead, and the call raises \<open>OverflowError\<close> (the integer has no float) where
  the specification has it return false. At the same time, with the timestamp
  \<open>1700000000\<close>, the one-byte body \<open>FF\<close> and the signature that the specification
  prescribes for them (\<open>slack_signature\<close>, computed on the raw body), the call raises
  \<open>UnicodeDecodeError\<close> (the body is not UTF-8) where the specification has it return
  true.
\<close>

theorem verify_slack_signature_raises:
  "verify_slack_signature 1700000000 [] (CHR ''1'' # replicate 400 CHR ''0'')
     (slack_signature ''s'' (CHR ''1'' # replicate 400 CHR ''0'') []) ''s'' = Inl OverflowError \<and>
   verify_slack_signature 1700000000 [0xFF] ''1700000000''
     (slack_signature ''s'' ''1700000000'' [0xFF]) ''s'' = Inl UnicodeDecodeError"
  by (simp add: verify_slack_signature_def py_int_ts py_int_long float_int_limit_def round_double_ts
        round_double_0 del: replicate.simps)

end
